theory Spec2Isabelle
  imports Complex_Main "HOL-Library.Char_ord" "HOL-Library.List_Lexorder" "HOL-Library.Multiset"
begin

section \<open>JavaScript values and errors\<close>

text \<open>
  Numbers are modelled as reals: the services only compare them with zero, add them and
  divide them, and a stored quotient is compared with the same quotient computed again.
  The values \<open>NaN\<close> and the infinities of a JavaScript number, and the rounding of its
  arithmetic, are not modelled.
  Strings are byte strings (the UTF-8 text SQLite stores); their order is the bytewise
  order of SQLite's default BINARY collation, which is the lexicographic order on
  \<^typ>\<open>string\<close>. An optional property (\<open>undefined\<close>) and a NULL column are \<open>None\<close>.

  Every \<open>throw new Error(msg)\<close> of the services is the value \<open>Error msg\<close>; the classes the
  jsonwebtoken library throws are constructors of their own. \<open>TypeError\<close> is what reading
  a property of \<open>undefined\<close> throws.
\<close>

datatype error =
    Error string
  | TypeError
  | JsonWebTokenError string
  | TokenExpiredError
  | NotBeforeError

text \<open>\<open>x || null\<close> and \<open>x || undefined\<close> on an optional string: the empty string is falsy.\<close>

definition or_null :: "string option \<Rightarrow> string option" where
  "or_null x = (case x of None \<Rightarrow> None | Some s \<Rightarrow> if s = [] then None else Some s)"

text \<open>
  The white space \<open>String.prototype.trim\<close> removes (ECMAScript WhiteSpace and
  LineTerminator), each code point in UTF-8: TAB, LF, VT, FF, CR, SP, U+00A0, U+1680,
  U+2000 to U+200A, U+2028, U+2029, U+202F, U+205F, U+3000, U+FEFF.
\<close>

definition js_whitespace :: "string list" where
  "js_whitespace =
     [[CHR 0x09], [CHR 0x0A], [CHR 0x0B], [CHR 0x0C], [CHR 0x0D], [CHR 0x20],
      [CHR 0xC2, CHR 0xA0],
      [CHR 0xE1, CHR 0x9A, CHR 0x80],
      [CHR 0xE2, CHR 0x80, CHR 0x80], [CHR 0xE2, CHR 0x80, CHR 0x81],
      [CHR 0xE2, CHR 0x80, CHR 0x82], [CHR 0xE2, CHR 0x80, CHR 0x83],
      [CHR 0xE2, CHR 0x80, CHR 0x84], [CHR 0xE2, CHR 0x80, CHR 0x85],
      [CHR 0xE2, CHR 0x80, CHR 0x86], [CHR 0xE2, CHR 0x80, CHR 0x87],
      [CHR 0xE2, CHR 0x80, CHR 0x88], [CHR 0xE2, CHR 0x80, CHR 0x89],
      [CHR 0xE2, CHR 0x80, CHR 0x8A],
      [CHR 0xE2, CHR 0x80, CHR 0xA8], [CHR 0xE2, CHR 0x80, CHR 0xA9],
      [CHR 0xE2, CHR 0x80, CHR 0xAF],
      [CHR 0xE2, CHR 0x81, CHR 0x9F],
      [CHR 0xE3, CHR 0x80, CHR 0x80],
      [CHR 0xEF, CHR 0xBB, CHR 0xBF]]"

text \<open>The white-space code point a string starts with, if any.\<close>

definition leading_whitespace :: "string \<Rightarrow> string option" where
  "leading_whitespace s = find (\<lambda>w. take (length w) s = w) js_whitespace"

lemma leading_whitespace_length:
  "leading_whitespace s = Some w \<Longrightarrow> 0 < length w \<and> length w \<le> length s"
proof -
  assume h: "leading_whitespace s = Some w"
  then have mem: "w \<in> set js_whitespace" and pre: "take (length w) s = w"
    by (auto simp: leading_whitespace_def find_Some_iff)
  from mem have "0 < length w"
    by (auto simp: js_whitespace_def)
  moreover from pre have "length (take (length w) s) = length w"
    by simp
  then have "length w \<le> length s"
    by simp
  ultimately show ?thesis by simp
qed

text \<open>\<open>s.trim() === ''\<close>: the string consists of white space only.\<close>

function trim_is_empty :: "string \<Rightarrow> bool" where
  "trim_is_empty s =
     (if s = [] then True
      else (case leading_whitespace s of
              None \<Rightarrow> False
            | Some w \<Rightarrow> trim_is_empty (drop (length w) s)))"
  by pat_completeness auto
termination
proof (relation "measure length")
  show "wf (measure length)" by simp
next
  fix s w
  assume "s \<noteq> []" and "leading_whitespace s = Some w"
  then show "(drop (length w) s, s) \<in> measure length"
    using leading_whitespace_length [of s w] by simp
qed

declare trim_is_empty.simps [simp del]

section \<open>Entities, storage rows and inputs\<close>

text \<open>The entity interfaces of \<open>types.ts\<close>.\<close>

record Expense =
  e_id :: int
  e_type :: string
  e_amount :: real
  e_date :: string
  e_description :: "string option"
  e_createdAt :: string
  e_updatedAt :: string

record Refill =
  r_id :: int
  r_amountSpent :: real
  r_distanceTraveled :: real
  r_liters :: "real option"
  r_date :: string
  r_notes :: "string option"
  r_efficiency :: "real option"
  r_createdAt :: string
  r_updatedAt :: string

record Trip =
  t_id :: int
  t_distance :: real
  t_date :: string
  t_purpose :: "string option"
  t_notes :: "string option"
  t_createdAt :: string
  t_updatedAt :: string

text \<open>The rows of the three tables, with the columns of the schema in \<open>db.ts\<close>.\<close>

record expense_row =
  er_id :: int
  er_type :: string
  er_amount :: real
  er_date :: string
  er_description :: "string option"
  er_created_at :: string
  er_updated_at :: string

record refill_row =
  rr_id :: int
  rr_amount_spent :: real
  rr_liters :: "real option"
  rr_distance_traveled :: real
  rr_date :: string
  rr_notes :: "string option"
  rr_efficiency :: "real option"
  rr_created_at :: string
  rr_updated_at :: string

record trip_row =
  tr_id :: int
  tr_distance :: real
  tr_date :: string
  tr_purpose :: "string option"
  tr_notes :: "string option"
  tr_created_at :: string
  tr_updated_at :: string

text \<open>
  The argument of a create call (\<open>Omit<Entity, 'id' | 'createdAt' | 'updatedAt'>\<close>, for a
  refill also without \<open>efficiency\<close>) and of an update call (\<open>Partial\<close> of the same: every
  property may be absent).
\<close>

record expense_input =
  ei_type :: string
  ei_amount :: real
  ei_date :: string
  ei_description :: "string option"

record expense_updates =
  eu_type :: "string option"
  eu_amount :: "real option"
  eu_date :: "string option"
  eu_description :: "string option"

record refill_input =
  ri_amountSpent :: real
  ri_distanceTraveled :: real
  ri_liters :: "real option"
  ri_date :: string
  ri_notes :: "string option"

record refill_updates =
  ru_amountSpent :: "real option"
  ru_distanceTraveled :: "real option"
  ru_liters :: "real option"
  ru_date :: "string option"
  ru_notes :: "string option"

record trip_input =
  ti_distance :: real
  ti_date :: string
  ti_purpose :: "string option"
  ti_notes :: "string option"

record trip_updates =
  tu_distance :: "real option"
  tu_date :: "string option"
  tu_purpose :: "string option"
  tu_notes :: "string option"

section \<open>The record store\<close>

text \<open>
  A table is the list of its rows in rowid order. Each table has an AUTOINCREMENT key:
  the \<open>_seq\<close> field is its entry in \<open>sqlite_sequence\<close>, the largest rowid the table ever
  held, and a new row gets one more than the larger of it and the largest rowid present.
  The NOT NULL and CHECK constraints of the schema play no part: the services validate
  what they write, so no statement they run on these inputs violates one.
\<close>

record db =
  expenses :: "expense_row list"
  expenses_seq :: int
  refills :: "refill_row list"
  refills_seq :: int
  trips :: "trip_row list"
  trips_seq :: int

definition emptyDb :: db where
  "emptyDb = \<lparr>expenses = [], expenses_seq = 0, refills = [], refills_seq = 0,
              trips = [], trips_seq = 0\<rparr>"

definition next_rowid :: "int \<Rightarrow> int list \<Rightarrow> int" where
  "next_rowid seq ids = fold max ids seq + 1"

section \<open>Trip service\<close>

text \<open>
  Every service function takes the store and returns its result together with the store
  it leaves. \<open>validDate s\<close> stands for \<open>!isNaN(new Date(s).getTime())\<close>, the date parser
  of the JavaScript runtime, and \<open>now\<close> for the string \<open>new Date().toISOString()\<close>
  returns at the call.
\<close>

definition mapRowToTrip :: "trip_row \<Rightarrow> Trip" where
  "mapRowToTrip row =
     \<lparr>t_id = tr_id row, t_distance = tr_distance row, t_date = tr_date row,
      t_purpose = or_null (tr_purpose row), t_notes = or_null (tr_notes row),
      t_createdAt = tr_created_at row, t_updatedAt = tr_updated_at row\<rparr>"

text \<open>\<open>SELECT * FROM trips WHERE id = ?\<close>, read with \<open>get\<close>: the first row or none.\<close>

definition select_trip :: "int \<Rightarrow> db \<Rightarrow> trip_row option" where
  "select_trip i d = find (\<lambda>row. tr_id row = i) (trips d)"

text \<open>The INSERT of \<open>createTrip\<close>; it returns \<open>lastInsertRowid\<close>.\<close>

definition insert_trip ::
  "real \<Rightarrow> string \<Rightarrow> string option \<Rightarrow> string option \<Rightarrow> string \<Rightarrow> string \<Rightarrow> db \<Rightarrow> int \<times> db" where
  "insert_trip distance dt purpose notes created updated d =
     (let rowid = next_rowid (trips_seq d) (map tr_id (trips d)) in
      (rowid,
       d\<lparr>trips := trips d @
            [\<lparr>tr_id = rowid, tr_distance = distance, tr_date = dt, tr_purpose = purpose,
              tr_notes = notes, tr_created_at = created, tr_updated_at = updated\<rparr>],
         trips_seq := rowid\<rparr>))"

definition createTrip ::
  "(string \<Rightarrow> bool) \<Rightarrow> string \<Rightarrow> trip_input \<Rightarrow> db \<Rightarrow> (error + Trip) \<times> db" where
  "createTrip validDate now trip d =
     (if ti_distance trip \<le> 0 then (Inl (Error ''Distance must be a positive number''), d)
      else if ti_date trip = [] then (Inl (Error ''Required field missing: date''), d)
      else if \<not> validDate (ti_date trip)
        then (Inl (Error ''Invalid date format. Use ISO 8601 format''), d)
      else
        (case insert_trip (ti_distance trip) (ti_date trip) (or_null (ti_purpose trip))
                (or_null (ti_notes trip)) now now d of
           (rowid, d') \<Rightarrow>
             (case select_trip rowid d' of
                None \<Rightarrow> (Inl TypeError, d')
              | Some row \<Rightarrow> (Inr (mapRowToTrip row), d'))))"

text \<open>
  \<open>SELECT * FROM trips ORDER BY date ASC\<close>: the rows sorted on the date column. Rows
  with equal dates come in rowid order, as a scan of the index on \<open>date\<close> (whose entries
  are ordered by date, then rowid) delivers them; the stable sort says so.
\<close>

definition getTrips :: "db \<Rightarrow> Trip list" where
  "getTrips d = map mapRowToTrip (sort_key tr_date (trips d))"

definition getTripById :: "int \<Rightarrow> db \<Rightarrow> Trip option" where
  "getTripById i d =
     (case select_trip i d of None \<Rightarrow> None | Some row \<Rightarrow> Some (mapRowToTrip row))"

text \<open>
  The assignments of the dynamic \<open>UPDATE trips SET ... WHERE id = ?\<close>: \<open>fields\<close> and
  \<open>values\<close> of the source, paired.
\<close>

datatype trip_assignment =
    Trip_distance real
  | Trip_date string
  | Trip_purpose "string option"
  | Trip_notes "string option"
  | Trip_updated_at string

fun assign_trip :: "trip_assignment \<Rightarrow> trip_row \<Rightarrow> trip_row" where
  "assign_trip (Trip_distance v) row = row\<lparr>tr_distance := v\<rparr>"
| "assign_trip (Trip_date v) row = row\<lparr>tr_date := v\<rparr>"
| "assign_trip (Trip_purpose v) row = row\<lparr>tr_purpose := v\<rparr>"
| "assign_trip (Trip_notes v) row = row\<lparr>tr_notes := v\<rparr>"
| "assign_trip (Trip_updated_at v) row = row\<lparr>tr_updated_at := v\<rparr>"

definition update_trips :: "trip_assignment list \<Rightarrow> int \<Rightarrow> db \<Rightarrow> db" where
  "update_trips assigns i d =
     d\<lparr>trips := map (\<lambda>row. if tr_id row = i then fold assign_trip assigns row else row)
                    (trips d)\<rparr>"

text \<open>The assignments \<open>updateTrip\<close> collects, in the order it pushes them.\<close>

definition trip_assignments :: "string \<Rightarrow> trip_updates \<Rightarrow> trip_assignment list" where
  "trip_assignments now updates =
     (case tu_distance updates of None \<Rightarrow> [] | Some v \<Rightarrow> [Trip_distance v]) @
     (case tu_date updates of None \<Rightarrow> [] | Some v \<Rightarrow> [Trip_date v]) @
     (case tu_purpose updates of None \<Rightarrow> [] | Some v \<Rightarrow> [Trip_purpose (or_null (Some v))]) @
     (case tu_notes updates of None \<Rightarrow> [] | Some v \<Rightarrow> [Trip_notes (or_null (Some v))]) @
     [Trip_updated_at now]"

definition updateTrip ::
  "(string \<Rightarrow> bool) \<Rightarrow> string \<Rightarrow> int \<Rightarrow> trip_updates \<Rightarrow> db \<Rightarrow> (error + Trip) \<times> db" where
  "updateTrip validDate now i updates d =
     (if (case tu_distance updates of None \<Rightarrow> False | Some v \<Rightarrow> v \<le> 0)
        then (Inl (Error ''Distance must be a positive number''), d)
      else if (case tu_date updates of None \<Rightarrow> False | Some v \<Rightarrow> \<not> validDate v)
        then (Inl (Error ''Invalid date format. Use ISO 8601 format''), d)
      else
        (case getTripById i d of
           None \<Rightarrow> (Inl (Error ''Resource not found''), d)
         | Some existing \<Rightarrow>
             (let d' = update_trips (trip_assignments now updates) i d
              in (case getTripById i d' of
                    None \<Rightarrow> (Inl (Error ''Failed to retrieve updated trip''), d')
                  | Some updated \<Rightarrow> (Inr updated, d')))))"

text \<open>\<open>DELETE FROM trips WHERE id = ?\<close>; the result is \<open>result.changes > 0\<close>.\<close>

definition deleteTrip :: "int \<Rightarrow> db \<Rightarrow> bool \<times> db" where
  "deleteTrip i d =
     (let kept = filter (\<lambda>row. tr_id row \<noteq> i) (trips d) in
      (length kept < length (trips d), d\<lparr>trips := kept\<rparr>))"

section \<open>Expense service\<close>

definition mapRowToExpense :: "expense_row \<Rightarrow> Expense" where
  "mapRowToExpense row =
     \<lparr>e_id = er_id row, e_type = er_type row, e_amount = er_amount row, e_date = er_date row,
      e_description = or_null (er_description row),
      e_createdAt = er_created_at row, e_updatedAt = er_updated_at row\<rparr>"

definition select_expense :: "int \<Rightarrow> db \<Rightarrow> expense_row option" where
  "select_expense i d = find (\<lambda>row. er_id row = i) (expenses d)"

definition insert_expense ::
  "string \<Rightarrow> real \<Rightarrow> string \<Rightarrow> string option \<Rightarrow> string \<Rightarrow> string \<Rightarrow> db \<Rightarrow> int \<times> db" where
  "insert_expense ty amount dt description created updated d =
     (let rowid = next_rowid (expenses_seq d) (map er_id (expenses d)) in
      (rowid,
       d\<lparr>expenses := expenses d @
            [\<lparr>er_id = rowid, er_type = ty, er_amount = amount, er_date = dt,
              er_description = description, er_created_at = created,
              er_updated_at = updated\<rparr>],
         expenses_seq := rowid\<rparr>))"

definition createExpense ::
  "(string \<Rightarrow> bool) \<Rightarrow> string \<Rightarrow> expense_input \<Rightarrow> db \<Rightarrow> (error + Expense) \<times> db" where
  "createExpense validDate now expense d =
     (if ei_type expense = [] \<or> trim_is_empty (ei_type expense)
        then (Inl (Error ''Required field missing: type''), d)
      else if ei_amount expense \<le> 0 then (Inl (Error ''Amount must be a positive number''), d)
      else if ei_date expense = [] then (Inl (Error ''Required field missing: date''), d)
      else if \<not> validDate (ei_date expense)
        then (Inl (Error ''Invalid date format. Use ISO 8601 format''), d)
      else
        (case insert_expense (ei_type expense) (ei_amount expense) (ei_date expense)
                (or_null (ei_description expense)) now now d of
           (rowid, d') \<Rightarrow>
             (case select_expense rowid d' of
                None \<Rightarrow> (Inl TypeError, d')
              | Some row \<Rightarrow> (Inr (mapRowToExpense row), d'))))"

definition getExpenses :: "db \<Rightarrow> Expense list" where
  "getExpenses d = map mapRowToExpense (sort_key er_date (expenses d))"

definition getExpenseById :: "int \<Rightarrow> db \<Rightarrow> Expense option" where
  "getExpenseById i d =
     (case select_expense i d of None \<Rightarrow> None | Some row \<Rightarrow> Some (mapRowToExpense row))"

datatype expense_assignment =
    Expense_type string
  | Expense_amount real
  | Expense_date string
  | Expense_description "string option"
  | Expense_updated_at string

fun assign_expense :: "expense_assignment \<Rightarrow> expense_row \<Rightarrow> expense_row" where
  "assign_expense (Expense_type v) row = row\<lparr>er_type := v\<rparr>"
| "assign_expense (Expense_amount v) row = row\<lparr>er_amount := v\<rparr>"
| "assign_expense (Expense_date v) row = row\<lparr>er_date := v\<rparr>"
| "assign_expense (Expense_description v) row = row\<lparr>er_description := v\<rparr>"
| "assign_expense (Expense_updated_at v) row = row\<lparr>er_updated_at := v\<rparr>"

definition update_expenses :: "expense_assignment list \<Rightarrow> int \<Rightarrow> db \<Rightarrow> db" where
  "update_expenses assigns i d =
     d\<lparr>expenses := map (\<lambda>row. if er_id row = i then fold assign_expense assigns row else row)
                       (expenses d)\<rparr>"

definition expense_assignments :: "string \<Rightarrow> expense_updates \<Rightarrow> expense_assignment list" where
  "expense_assignments now updates =
     (case eu_type updates of None \<Rightarrow> [] | Some v \<Rightarrow> [Expense_type v]) @
     (case eu_amount updates of None \<Rightarrow> [] | Some v \<Rightarrow> [Expense_amount v]) @
     (case eu_date updates of None \<Rightarrow> [] | Some v \<Rightarrow> [Expense_date v]) @
     (case eu_description updates of None \<Rightarrow> []
      | Some v \<Rightarrow> [Expense_description (or_null (Some v))]) @
     [Expense_updated_at now]"

definition updateExpense ::
  "(string \<Rightarrow> bool) \<Rightarrow> string \<Rightarrow> int \<Rightarrow> expense_updates \<Rightarrow> db \<Rightarrow> (error + Expense) \<times> db" where
  "updateExpense validDate now i updates d =
     (if (case eu_amount updates of None \<Rightarrow> False | Some v \<Rightarrow> v \<le> 0)
        then (Inl (Error ''Amount must be a positive number''), d)
      else if (case eu_date updates of None \<Rightarrow> False | Some v \<Rightarrow> \<not> validDate v)
        then (Inl (Error ''Invalid date format. Use ISO 8601 format''), d)
      else if (case eu_type updates of None \<Rightarrow> False | Some v \<Rightarrow> trim_is_empty v)
        then (Inl (Error ''Type cannot be empty''), d)
      else
        (case getExpenseById i d of
           None \<Rightarrow> (Inl (Error ''Resource not found''), d)
         | Some existing \<Rightarrow>
             (let d' = update_expenses (expense_assignments now updates) i d
              in (case getExpenseById i d' of
                    None \<Rightarrow> (Inl (Error ''Failed to retrieve updated expense''), d')
                  | Some updated \<Rightarrow> (Inr updated, d')))))"

definition deleteExpense :: "int \<Rightarrow> db \<Rightarrow> bool \<times> db" where
  "deleteExpense i d =
     (let kept = filter (\<lambda>row. er_id row \<noteq> i) (expenses d) in
      (length kept < length (expenses d), d\<lparr>expenses := kept\<rparr>))"

section \<open>Refill service\<close>

definition calculateEfficiency :: "real \<Rightarrow> real \<Rightarrow> error + real" where
  "calculateEfficiency amountSpent distance =
     (if distance \<le> 0 then Inl (Error ''Distance must be a positive number'')
      else Inr (amountSpent / distance))"

text \<open>\<open>mapRowToRefill\<close> copies no \<open>liters\<close> property: the entity it builds has none.\<close>

definition mapRowToRefill :: "refill_row \<Rightarrow> Refill" where
  "mapRowToRefill row =
     \<lparr>r_id = rr_id row, r_amountSpent = rr_amount_spent row,
      r_distanceTraveled = rr_distance_traveled row, r_liters = None, r_date = rr_date row,
      r_notes = or_null (rr_notes row), r_efficiency = rr_efficiency row,
      r_createdAt = rr_created_at row, r_updatedAt = rr_updated_at row\<rparr>"

definition select_refill :: "int \<Rightarrow> db \<Rightarrow> refill_row option" where
  "select_refill i d = find (\<lambda>row. rr_id row = i) (refills d)"

text \<open>
  The INSERT of \<open>createRefill\<close> names the columns amount_spent, distance_traveled, date,
  notes, efficiency, created_at and updated_at; \<open>liters\<close> is not among them and takes
  its default, NULL.
\<close>

definition insert_refill ::
  "real \<Rightarrow> real \<Rightarrow> string \<Rightarrow> string option \<Rightarrow> real \<Rightarrow> string \<Rightarrow> string \<Rightarrow> db \<Rightarrow> int \<times> db" where
  "insert_refill amountSpent distanceTraveled dt notes efficiency created updated d =
     (let rowid = next_rowid (refills_seq d) (map rr_id (refills d)) in
      (rowid,
       d\<lparr>refills := refills d @
            [\<lparr>rr_id = rowid, rr_amount_spent = amountSpent, rr_liters = None,
              rr_distance_traveled = distanceTraveled, rr_date = dt, rr_notes = notes,
              rr_efficiency = Some efficiency, rr_created_at = created,
              rr_updated_at = updated\<rparr>],
         refills_seq := rowid\<rparr>))"

definition createRefill ::
  "(string \<Rightarrow> bool) \<Rightarrow> string \<Rightarrow> refill_input \<Rightarrow> db \<Rightarrow> (error + Refill) \<times> db" where
  "createRefill validDate now refill d =
     (if ri_amountSpent refill \<le> 0 then (Inl (Error ''Amount must be a positive number''), d)
      else if ri_distanceTraveled refill \<le> 0
        then (Inl (Error ''Distance must be a positive number''), d)
      else if ri_date refill = [] then (Inl (Error ''Required field missing: date''), d)
      else if \<not> validDate (ri_date refill)
        then (Inl (Error ''Invalid date format. Use ISO 8601 format''), d)
      else
        (case calculateEfficiency (ri_amountSpent refill) (ri_distanceTraveled refill) of
           Inl err \<Rightarrow> (Inl err, d)
         | Inr efficiency \<Rightarrow>
             (case insert_refill (ri_amountSpent refill) (ri_distanceTraveled refill)
                     (ri_date refill) (or_null (ri_notes refill)) efficiency now now d of
                (rowid, d') \<Rightarrow>
                  (case select_refill rowid d' of
                     None \<Rightarrow> (Inl TypeError, d')
                   | Some row \<Rightarrow> (Inr (mapRowToRefill row), d')))))"

definition getRefills :: "db \<Rightarrow> Refill list" where
  "getRefills d = map mapRowToRefill (sort_key rr_date (refills d))"

definition getRefillById :: "int \<Rightarrow> db \<Rightarrow> Refill option" where
  "getRefillById i d =
     (case select_refill i d of None \<Rightarrow> None | Some row \<Rightarrow> Some (mapRowToRefill row))"

datatype refill_assignment =
    Refill_amount_spent real
  | Refill_distance_traveled real
  | Refill_date string
  | Refill_notes "string option"
  | Refill_efficiency real
  | Refill_updated_at string

fun assign_refill :: "refill_assignment \<Rightarrow> refill_row \<Rightarrow> refill_row" where
  "assign_refill (Refill_amount_spent v) row = row\<lparr>rr_amount_spent := v\<rparr>"
| "assign_refill (Refill_distance_traveled v) row = row\<lparr>rr_distance_traveled := v\<rparr>"
| "assign_refill (Refill_date v) row = row\<lparr>rr_date := v\<rparr>"
| "assign_refill (Refill_notes v) row = row\<lparr>rr_notes := v\<rparr>"
| "assign_refill (Refill_efficiency v) row = row\<lparr>rr_efficiency := Some v\<rparr>"
| "assign_refill (Refill_updated_at v) row = row\<lparr>rr_updated_at := v\<rparr>"

definition update_refills :: "refill_assignment list \<Rightarrow> int \<Rightarrow> db \<Rightarrow> db" where
  "update_refills assigns i d =
     d\<lparr>refills := map (\<lambda>row. if rr_id row = i then fold assign_refill assigns row else row)
                      (refills d)\<rparr>"

text \<open>
  The assignments \<open>updateRefill\<close> collects: those of the properties present, then always
  the recomputed efficiency and the new \<open>updated_at\<close>.
\<close>

definition refill_assignments ::
  "string \<Rightarrow> refill_updates \<Rightarrow> real \<Rightarrow> refill_assignment list" where
  "refill_assignments now updates efficiency =
     (case ru_amountSpent updates of None \<Rightarrow> [] | Some v \<Rightarrow> [Refill_amount_spent v]) @
     (case ru_distanceTraveled updates of None \<Rightarrow> []
      | Some v \<Rightarrow> [Refill_distance_traveled v]) @
     (case ru_date updates of None \<Rightarrow> [] | Some v \<Rightarrow> [Refill_date v]) @
     (case ru_notes updates of None \<Rightarrow> [] | Some v \<Rightarrow> [Refill_notes (or_null (Some v))]) @
     [Refill_efficiency efficiency, Refill_updated_at now]"

definition updateRefill ::
  "(string \<Rightarrow> bool) \<Rightarrow> string \<Rightarrow> int \<Rightarrow> refill_updates \<Rightarrow> db \<Rightarrow> (error + Refill) \<times> db" where
  "updateRefill validDate now i updates d =
     (if (case ru_amountSpent updates of None \<Rightarrow> False | Some v \<Rightarrow> v \<le> 0)
        then (Inl (Error ''Amount must be a positive number''), d)
      else if (case ru_distanceTraveled updates of None \<Rightarrow> False | Some v \<Rightarrow> v \<le> 0)
        then (Inl (Error ''Distance must be a positive number''), d)
      else if (case ru_date updates of None \<Rightarrow> False | Some v \<Rightarrow> \<not> validDate v)
        then (Inl (Error ''Invalid date format. Use ISO 8601 format''), d)
      else
        (case getRefillById i d of
           None \<Rightarrow> (Inl (Error ''Resource not found''), d)
         | Some existing \<Rightarrow>
             (let finalAmountSpent =
                    (case ru_amountSpent updates of
                       None \<Rightarrow> r_amountSpent existing | Some v \<Rightarrow> v);
                  finalDistance =
                    (case ru_distanceTraveled updates of
                       None \<Rightarrow> r_distanceTraveled existing | Some v \<Rightarrow> v)
              in (case calculateEfficiency finalAmountSpent finalDistance of
                    Inl err \<Rightarrow> (Inl err, d)
                  | Inr efficiency \<Rightarrow>
                      (let d' = update_refills (refill_assignments now updates efficiency) i d
                       in (case getRefillById i d' of
                             None \<Rightarrow> (Inl (Error ''Failed to retrieve updated refill''), d')
                           | Some updated \<Rightarrow> (Inr updated, d')))))))"

definition deleteRefill :: "int \<Rightarrow> db \<Rightarrow> bool \<times> db" where
  "deleteRefill i d =
     (let kept = filter (\<lambda>row. rr_id row \<noteq> i) (refills d) in
      (length kept < length (refills d), d\<lparr>refills := kept\<rparr>))"

section \<open>Mileage over time\<close>

record mileage_point =
  p_date :: string
  p_cumulativeDistance :: real

text \<open>
  The query of \<open>getMileageOverTime\<close>: the (date, distance) pairs of all trips, then of all
  refills (UNION ALL), ordered by date.
\<close>

definition mileage_rows :: "db \<Rightarrow> (string \<times> real) list" where
  "mileage_rows d =
     sort_key fst
       (map (\<lambda>row. (tr_date row, tr_distance row)) (trips d) @
        map (\<lambda>row. (rr_date row, rr_distance_traveled row)) (refills d))"

text \<open>
  The \<open>for\<close> loop, with its two variables \<open>cumulative\<close> and \<open>result\<close>. The sums are
  exact here and rounded to doubles in the code.
\<close>

fun mileage_loop ::
  "real \<Rightarrow> mileage_point list \<Rightarrow> (string \<times> real) list \<Rightarrow> mileage_point list" where
  "mileage_loop cumulative result [] = result"
| "mileage_loop cumulative result (row # rows) =
     mileage_loop (cumulative + snd row)
       (result @ [\<lparr>p_date = fst row, p_cumulativeDistance = cumulative + snd row\<rparr>]) rows"

definition getMileageOverTime :: "db \<Rightarrow> mileage_point list" where
  "getMileageOverTime d = mileage_loop 0 [] (mileage_rows d)"

section \<open>Authentication service\<close>

text \<open>The three variables of \<open>process.env\<close> the service reads; \<open>None\<close> is an unset one.\<close>

record env =
  APP_PASSWORD :: "string option"
  JWT_SECRET :: "string option"
  JWT_EXPIRES_IN :: "string option"

text \<open>
  A JSON value: the claim handed to \<open>jwt.sign\<close> and what \<open>jwt.verify\<close> decodes. An object
  is the list of its properties.
\<close>

datatype json =
    JNull
  | JBool bool
  | JNum real
  | JStr string
  | JArr "json list"
  | JObj "(string \<times> json) list"

text \<open>
  The jsonwebtoken library is not part of the repository. The service is given its two
  functions as they behave at the moment of the call: \<open>jwtSign payload secret expiresIn\<close>
  returns the token or throws, \<open>jwtVerify token secret\<close> returns the decoded payload of a
  token whose signature verifies against the secret and which has not expired, and
  throws otherwise.
\<close>

type_synonym jwt_sign = "json \<Rightarrow> string \<Rightarrow> string \<Rightarrow> error + string"
type_synonym jwt_verify = "string \<Rightarrow> string \<Rightarrow> error + json"

definition getJwtSecret :: "env \<Rightarrow> error + string" where
  "getJwtSecret ev =
     (case JWT_SECRET ev of
        None \<Rightarrow> Inl (Error ''JWT_SECRET environment variable is not configured'')
      | Some secret \<Rightarrow>
          if secret = [] then Inl (Error ''JWT_SECRET environment variable is not configured'')
          else Inr secret)"

definition getJwtExpiresIn :: "env \<Rightarrow> string" where
  "getJwtExpiresIn ev =
     (case JWT_EXPIRES_IN ev of None \<Rightarrow> ''24h'' | Some v \<Rightarrow> if v = [] then ''24h'' else v)"

definition verifyPassword :: "env \<Rightarrow> string \<Rightarrow> error + bool" where
  "verifyPassword ev password =
     (case APP_PASSWORD ev of
        None \<Rightarrow> Inl (Error ''APP_PASSWORD environment variable is not configured'')
      | Some configuredPassword \<Rightarrow>
          if configuredPassword = []
          then Inl (Error ''APP_PASSWORD environment variable is not configured'')
          else Inr (password = configuredPassword))"

definition createSession :: "jwt_sign \<Rightarrow> env \<Rightarrow> string \<Rightarrow> error + string" where
  "createSession jwtSign ev now =
     (case getJwtSecret ev of
        Inl err \<Rightarrow> Inl err
      | Inr secret \<Rightarrow>
          jwtSign (JObj [(''authenticated'', JBool True), (''createdAt'', JStr now)])
            secret (getJwtExpiresIn ev))"

text \<open>\<open>decoded.authenticated === true\<close>; a payload that is no object has no such property.\<close>

definition authenticated_is_true :: "json \<Rightarrow> bool" where
  "authenticated_is_true decoded =
     (case decoded of
        JObj props \<Rightarrow> map_of props ''authenticated'' = Some (JBool True)
      | _ \<Rightarrow> False)"

text \<open>The body of the \<open>try\<close> block of \<open>validateSession\<close>.\<close>

definition validateSession_try :: "jwt_verify \<Rightarrow> env \<Rightarrow> string \<Rightarrow> error + bool" where
  "validateSession_try jwtVerify ev token =
     (case getJwtSecret ev of
        Inl err \<Rightarrow> Inl err
      | Inr secret \<Rightarrow>
          (case jwtVerify token secret of
             Inl err \<Rightarrow> Inl err
           | Inr decoded \<Rightarrow> Inr (authenticated_is_true decoded)))"

text \<open>\<open>try { ... } catch (error) { return false; }\<close>\<close>

definition validateSession :: "jwt_verify \<Rightarrow> env \<Rightarrow> string \<Rightarrow> error + bool" where
  "validateSession jwtVerify ev token =
     (case validateSession_try jwtVerify ev token of
        Inl err \<Rightarrow> Inr False
      | Inr result \<Rightarrow> Inr result)"

text \<open>
  \<open>parseExpirationToSeconds\<close> of the login route, which computes the cookie's max-age:
  the regular expression \<open>^(\d+)([smhd])$\<close>, then \<open>parseInt\<close> of the digits. \<open>parseInt10\<close>
  is the exact value of the digits; JavaScript's \<open>parseInt\<close> and the products below are
  doubles and agree with it as long as the result stays below \<open>2^53\<close>. Nothing proved
  here is about a larger one.
\<close>

definition is_digit :: "char \<Rightarrow> bool" where
  "is_digit c = (CHR ''0'' \<le> c \<and> c \<le> CHR ''9'')"

definition parseInt10 :: "string \<Rightarrow> nat" where
  "parseInt10 digits = fold (\<lambda>c n. 10 * n + (of_char c - of_char CHR ''0'')) digits 0"

definition parseExpirationToSeconds :: "string \<Rightarrow> nat" where
  "parseExpirationToSeconds expiresIn =
     (if expiresIn = [] \<or> butlast expiresIn = [] \<or> \<not> list_all is_digit (butlast expiresIn)
         \<or> last expiresIn \<notin> set ''smhd''
      then 60 * 60 * 24
      else
        (let v = parseInt10 (butlast expiresIn); unit = last expiresIn in
         if unit = CHR ''s'' then v
         else if unit = CHR ''m'' then v * 60
         else if unit = CHR ''h'' then v * 60 * 60
         else if unit = CHR ''d'' then v * 60 * 60 * 24
         else 60 * 60 * 24))"

text \<open>
  The login route \<open>POST /api/auth/login\<close>, as far as its status code and the cookie it
  sets (the token and its max-age) go. \<open>password\<close> is the property of that name in the
  request body.
\<close>

definition login_POST ::
  "jwt_sign \<Rightarrow> env \<Rightarrow> string \<Rightarrow> string option \<Rightarrow> nat \<times> (string \<times> nat) option" where
  "login_POST jwtSign ev now password =
     (case password of
        None \<Rightarrow> (400, None)
      | Some p \<Rightarrow>
          if p = [] then (400, None)
          else
            (case verifyPassword ev p of
               Inl err \<Rightarrow> (500, None)
             | Inr isValid \<Rightarrow>
                 if \<not> isValid then (401, None)
                 else
                   (case createSession jwtSign ev now of
                      Inl err \<Rightarrow> (500, None)
                    | Inr token \<Rightarrow>
                        (let expiresIn =
                               (case JWT_EXPIRES_IN ev of
                                  None \<Rightarrow> ''24h''
                                | Some v \<Rightarrow> if v = [] then ''24h'' else v);
                             maxAge = parseExpirationToSeconds expiresIn
                         in (200, Some (token, maxAge))))))"

section \<open>Histories of service calls\<close>

text \<open>
  The stores the services can produce are those reached from the empty store by a
  sequence of calls of the nine mutating functions. A create or update call carries the
  clock reading \<open>now\<close> it makes.
\<close>

datatype operation =
    CreateExpense string expense_input
  | UpdateExpense string int expense_updates
  | DeleteExpense int
  | CreateRefill string refill_input
  | UpdateRefill string int refill_updates
  | DeleteRefill int
  | CreateTrip string trip_input
  | UpdateTrip string int trip_updates
  | DeleteTrip int

fun perform :: "(string \<Rightarrow> bool) \<Rightarrow> operation \<Rightarrow> db \<Rightarrow> db" where
  "perform validDate (CreateExpense now x) d = snd (createExpense validDate now x d)"
| "perform validDate (UpdateExpense now i u) d = snd (updateExpense validDate now i u d)"
| "perform validDate (DeleteExpense i) d = snd (deleteExpense i d)"
| "perform validDate (CreateRefill now x) d = snd (createRefill validDate now x d)"
| "perform validDate (UpdateRefill now i u) d = snd (updateRefill validDate now i u d)"
| "perform validDate (DeleteRefill i) d = snd (deleteRefill i d)"
| "perform validDate (CreateTrip now x) d = snd (createTrip validDate now x d)"
| "perform validDate (UpdateTrip now i u) d = snd (updateTrip validDate now i u d)"
| "perform validDate (DeleteTrip i) d = snd (deleteTrip i d)"

definition run :: "(string \<Rightarrow> bool) \<Rightarrow> operation list \<Rightarrow> db \<Rightarrow> db" where
  "run validDate ops d = fold (perform validDate) ops d"

fun op_time :: "operation \<Rightarrow> string option" where
  "op_time (CreateExpense now x) = Some now"
| "op_time (UpdateExpense now i u) = Some now"
| "op_time (DeleteExpense i) = None"
| "op_time (CreateRefill now x) = Some now"
| "op_time (UpdateRefill now i u) = Some now"
| "op_time (DeleteRefill i) = None"
| "op_time (CreateTrip now x) = Some now"
| "op_time (UpdateTrip now i u) = Some now"
| "op_time (DeleteTrip i) = None"

text \<open>
  The clock does not run backwards along a history: starting from the reading \<open>t\<close>, each
  reading is at least the one before. \<open>last_time\<close> is the last reading made. Readings
  are compared as the strings they are: \<open>toISOString\<close> renders the instants of the years
  0000 to 9999 in one fixed-width form, on which the order of the strings is the order
  of the instants.
\<close>

fun clock_monotone :: "string \<Rightarrow> operation list \<Rightarrow> bool" where
  "clock_monotone t [] = True"
| "clock_monotone t (x # xs) =
     (case op_time x of
        None \<Rightarrow> clock_monotone t xs
      | Some now \<Rightarrow> t \<le> now \<and> clock_monotone now xs)"

fun last_time :: "string \<Rightarrow> operation list \<Rightarrow> string" where
  "last_time t [] = t"
| "last_time t (x # xs) =
     (case op_time x of None \<Rightarrow> last_time t xs | Some now \<Rightarrow> last_time now xs)"

text \<open>The invariants of the three tables that the histories maintain.\<close>

definition refill_row_ok :: "refill_row \<Rightarrow> bool" where
  "refill_row_ok row =
     (0 < rr_amount_spent row \<and> 0 < rr_distance_traveled row \<and>
      rr_efficiency row = Some (rr_amount_spent row / rr_distance_traveled row))"

definition refills_ok :: "db \<Rightarrow> bool" where
  "refills_ok d = list_all refill_row_ok (refills d)"

text \<open>Rowids grow along each table and never exceed the table's sequence entry.\<close>

definition rowids_ok :: "int \<Rightarrow> int list \<Rightarrow> bool" where
  "rowids_ok seq ids = (sorted_wrt (<) ids \<and> list_all (\<lambda>i. i \<le> seq) ids)"

definition keys_ok :: "db \<Rightarrow> bool" where
  "keys_ok d =
     (rowids_ok (expenses_seq d) (map er_id (expenses d)) \<and>
      rowids_ok (refills_seq d) (map rr_id (refills d)) \<and>
      rowids_ok (trips_seq d) (map tr_id (trips d)))"

text \<open>No row was created after it was last updated, or updated after the reading \<open>t\<close>.\<close>

definition stamps_ok :: "string \<Rightarrow> db \<Rightarrow> bool" where
  "stamps_ok t d =
     (list_all (\<lambda>row. er_created_at row \<le> er_updated_at row \<and> er_updated_at row \<le> t)
        (expenses d) \<and>
      list_all (\<lambda>row. rr_created_at row \<le> rr_updated_at row \<and> rr_updated_at row \<le> t)
        (refills d) \<and>
      list_all (\<lambda>row. tr_created_at row \<le> tr_updated_at row \<and> tr_updated_at row \<le> t)
        (trips d))"

section \<open>Fixtures of the test suites\<close>

text \<open>
  The environment the authentication tests set up in \<open>beforeEach\<close>, the same with a
  variable deleted, and stand-ins for the runtime's date parser and for the token
  library on the handful of inputs the examples below use.
\<close>

abbreviation test_env :: env where
  "test_env \<equiv>
     \<lparr>APP_PASSWORD = Some ''test-password-123'', JWT_SECRET = Some ''test-secret-key'',
      JWT_EXPIRES_IN = Some ''24h''\<rparr>"

abbreviation test_validDate :: "string \<Rightarrow> bool" where
  "test_validDate \<equiv> (\<lambda>s. s \<noteq> [] \<and> s \<noteq> ''invalid-date'' \<and> s \<noteq> ''invalid'')"

abbreviation test_claim :: json where
  "test_claim \<equiv>
     JObj [(''authenticated'', JBool True), (''createdAt'', JStr ''2024-01-15T10:00:00.000Z''),
           (''iat'', JNum 1705312800), (''exp'', JNum 1705399200)]"

abbreviation test_jwtVerify :: jwt_verify where
  "test_jwtVerify \<equiv>
     (\<lambda>token secret.
        if token = ''token-of-test-secret-key'' \<and> secret = ''test-secret-key''
          then Inr test_claim
        else if token = ''expired-token-of-test-secret-key'' \<and> secret = ''test-secret-key''
          then Inl TokenExpiredError
        else if token = ''token-of-test-secret-key'' \<or> token = ''expired-token-of-test-secret-key''
          then Inl (JsonWebTokenError ''invalid signature'')
        else Inl (JsonWebTokenError ''jwt malformed''))"

text \<open>
  A history in the manner of the service tests (one expense, one refill, one trip), and
  the store it leaves.
\<close>

abbreviation test_history :: "operation list" where
  "test_history \<equiv>
     [CreateExpense ''2024-01-16T08:00:00.000Z''
        \<lparr>ei_type = ''Fuel'', ei_amount = 50, ei_date = ''2024-01-15T10:00:00.000Z'',
         ei_description = Some ''Original''\<rparr>,
      CreateRefill ''2024-01-16T08:00:01.000Z''
        \<lparr>ri_amountSpent = 50, ri_distanceTraveled = 10, ri_liters = None,
         ri_date = ''2024-01-10T10:00:00.000Z'', ri_notes = Some ''First refill''\<rparr>,
      CreateTrip ''2024-01-16T08:00:02.000Z''
        \<lparr>ti_distance = 45.5, ti_date = ''2024-01-15T10:00:00.000Z'',
         ti_purpose = Some ''Business'', ti_notes = Some ''Client meeting''\<rparr>]"

abbreviation test_db :: db where
  "test_db \<equiv>
     \<lparr>expenses =
        [\<lparr>er_id = 1, er_type = ''Fuel'', er_amount = 50, er_date = ''2024-01-15T10:00:00.000Z'',
          er_description = Some ''Original'', er_created_at = ''2024-01-16T08:00:00.000Z'',
          er_updated_at = ''2024-01-16T08:00:00.000Z''\<rparr>],
      expenses_seq = 1,
      refills =
        [\<lparr>rr_id = 1, rr_amount_spent = 50, rr_liters = None, rr_distance_traveled = 10,
          rr_date = ''2024-01-10T10:00:00.000Z'', rr_notes = Some ''First refill'',
          rr_efficiency = Some 5, rr_created_at = ''2024-01-16T08:00:01.000Z'',
          rr_updated_at = ''2024-01-16T08:00:01.000Z''\<rparr>],
      refills_seq = 1,
      trips =
        [\<lparr>tr_id = 1, tr_distance = 45.5, tr_date = ''2024-01-15T10:00:00.000Z'',
          tr_purpose = Some ''Business'', tr_notes = Some ''Client meeting'',
          tr_created_at = ''2024-01-16T08:00:02.000Z'',
          tr_updated_at = ''2024-01-16T08:00:02.000Z''\<rparr>],
      trips_seq = 1\<rparr>"

text \<open>
  \<open>new Date(s).getTime()\<close> on the two date strings of the examples on date order, in a
  process whose time zone is UTC; \<open>None\<close> stands for \<open>NaN\<close>. The second string is no ISO
  8601 date, yet the runtime parses it, so the services accept it.
\<close>

abbreviation test_getTime :: "string \<Rightarrow> int option" where
  "test_getTime \<equiv>
     (\<lambda>s. if s = ''2024-01-01T00:00:00.000Z'' then Some 1704067200000
          else if s = ''Dec 1, 2020'' then Some 1606780800000
          else None)"

text \<open>
  \<open>jwt.sign\<close> of the jsonwebtoken library on the durations of the examples: it throws
  on a duration its parser does not know, such as \<open>soon\<close>.
\<close>

abbreviation test_jwtSign :: jwt_sign where
  "test_jwtSign \<equiv>
     (\<lambda>payload secret expiresIn.
        if expiresIn = ''soon''
        then Inl (Error ([CHR 0x22] @ ''expiresIn'' @ [CHR 0x22] @
               '' should be a number of seconds or string representing a timespan''))
        else Inr (''token-of-'' @ secret))"

section \<open>Lists, keys and rowids\<close>

lemma fold_max_bounds:
  "(s::int) \<le> fold max ids s \<and> (\<forall>i \<in> set ids. i \<le> fold max ids s)"
proof (induction ids arbitrary: s)
  case Nil
  show ?case by simp
next
  case (Cons a ids)
  have "max a s \<le> fold max ids (max a s)"
    and "\<forall>i \<in> set ids. i \<le> fold max ids (max a s)"
    using Cons.IH [of "max a s"] by simp_all
  then show ?case by auto
qed

lemma next_rowid_fresh: "i \<in> set ids \<Longrightarrow> i < next_rowid seq ids"
  using fold_max_bounds [of seq ids] by (auto simp: next_rowid_def)

lemma find_snoc:
  "find P (xs @ [x]) =
     (case find P xs of Some y \<Rightarrow> Some y | None \<Rightarrow> if P x then Some x else None)"
  by (induction xs) simp_all

lemma find_map_update:
  "(\<And>y. key (f y) = key y) \<Longrightarrow>
   find (\<lambda>y. key y = i) (map (\<lambda>y. if key y = i then f y else y) xs) =
   map_option f (find (\<lambda>y. key y = i) xs)"
  by (induction xs) simp_all

lemma find_map_other:
  "(\<And>y. key (f y) = key y) \<Longrightarrow> j \<noteq> i \<Longrightarrow>
   find (\<lambda>y. key y = j) (map (\<lambda>y. if key y = i then f y else y) xs) =
   find (\<lambda>y. key y = j) xs"
  by (induction xs) simp_all

lemma find_key: "find (\<lambda>y. key y = i) xs = Some x \<Longrightarrow> key x = i \<and> x \<in> set xs"
  by (auto simp: find_Some_iff)

section \<open>What the calls of the services return\<close>

subsection \<open>Trips\<close>

lemma assign_trip_id: "tr_id (assign_trip a row) = tr_id row"
  by (cases a) simp_all

lemma fold_assign_trip_id: "tr_id (fold assign_trip as row) = tr_id row"
  by (induction as arbitrary: row) (simp_all add: assign_trip_id)

lemma fold_trip_assignments:
  "fold assign_trip (trip_assignments now u) row =
     row\<lparr>tr_distance := (case tu_distance u of None \<Rightarrow> tr_distance row | Some v \<Rightarrow> v),
         tr_date := (case tu_date u of None \<Rightarrow> tr_date row | Some v \<Rightarrow> v),
         tr_purpose := (case tu_purpose u of None \<Rightarrow> tr_purpose row | Some v \<Rightarrow> or_null (Some v)),
         tr_notes := (case tu_notes u of None \<Rightarrow> tr_notes row | Some v \<Rightarrow> or_null (Some v)),
         tr_updated_at := now\<rparr>"
  by (simp add: trip_assignments_def split: option.split)

lemma createTrip_ok:
  assumes "0 < ti_distance x" and "ti_date x \<noteq> []" and "vd (ti_date x)"
  shows "createTrip vd now x d =
     (Inr \<lparr>t_id = next_rowid (trips_seq d) (map tr_id (trips d)), t_distance = ti_distance x,
           t_date = ti_date x, t_purpose = or_null (ti_purpose x), t_notes = or_null (ti_notes x),
           t_createdAt = now, t_updatedAt = now\<rparr>,
      d\<lparr>trips := trips d @
           [\<lparr>tr_id = next_rowid (trips_seq d) (map tr_id (trips d)), tr_distance = ti_distance x,
             tr_date = ti_date x, tr_purpose = or_null (ti_purpose x),
             tr_notes = or_null (ti_notes x), tr_created_at = now, tr_updated_at = now\<rparr>],
         trips_seq := next_rowid (trips_seq d) (map tr_id (trips d))\<rparr>)"
proof -
  let ?k = "next_rowid (trips_seq d) (map tr_id (trips d))"
  have fresh: "\<forall>y \<in> set (trips d). tr_id y \<noteq> ?k"
    using next_rowid_fresh [of _ "map tr_id (trips d)" "trips_seq d"] by fastforce
  have "find (\<lambda>y. tr_id y = ?k) (trips d) = None"
    using fresh by (simp add: find_None_iff)
  then show ?thesis
    using assms
    by (simp add: createTrip_def insert_trip_def select_trip_def find_snoc mapRowToTrip_def
        Let_def or_null_def split: option.split)
qed

lemma createTrip_rejected:
  "\<not> (0 < ti_distance x \<and> ti_date x \<noteq> [] \<and> vd (ti_date x)) \<Longrightarrow>
   snd (createTrip vd now x d) = d"
  by (auto simp: createTrip_def)

lemma updateTrip_ok:
  assumes "select_trip i d = Some row"
    and "\<forall>v. tu_distance u = Some v \<longrightarrow> 0 < v"
    and "\<forall>v. tu_date u = Some v \<longrightarrow> vd v"
  shows "updateTrip vd now i u d =
     (Inr (mapRowToTrip (fold assign_trip (trip_assignments now u) row)),
      update_trips (trip_assignments now u) i d)"
proof -
  have "find (\<lambda>y. tr_id y = i)
          (map (\<lambda>y. if tr_id y = i then fold assign_trip (trip_assignments now u) y else y)
             (trips d)) =
        map_option (fold assign_trip (trip_assignments now u)) (find (\<lambda>y. tr_id y = i) (trips d))"
    by (rule find_map_update) (rule fold_assign_trip_id)
  then have sel: "select_trip i (update_trips (trip_assignments now u) i d) =
      Some (fold assign_trip (trip_assignments now u) row)"
    using assms(1) by (simp add: select_trip_def update_trips_def)
  have v1: "\<not> (case tu_distance u of None \<Rightarrow> False | Some v \<Rightarrow> v \<le> 0)"
    using assms(2) by (auto split: option.split)
  have v2: "\<not> (case tu_date u of None \<Rightarrow> False | Some v \<Rightarrow> \<not> vd v)"
    using assms(3) by (auto split: option.split)
  show ?thesis
    using v1 v2 sel assms(1) by (simp add: updateTrip_def getTripById_def Let_def)
qed

lemma updateTrip_store:
  "snd (updateTrip vd now i u d) = d \<or>
   snd (updateTrip vd now i u d) = update_trips (trip_assignments now u) i d"
  by (simp add: updateTrip_def Let_def split: option.split)

subsection \<open>Expenses\<close>

lemma assign_expense_id: "er_id (assign_expense a row) = er_id row"
  by (cases a) simp_all

lemma fold_assign_expense_id: "er_id (fold assign_expense as row) = er_id row"
  by (induction as arbitrary: row) (simp_all add: assign_expense_id)

lemma fold_expense_assignments:
  "fold assign_expense (expense_assignments now u) row =
     row\<lparr>er_type := (case eu_type u of None \<Rightarrow> er_type row | Some v \<Rightarrow> v),
         er_amount := (case eu_amount u of None \<Rightarrow> er_amount row | Some v \<Rightarrow> v),
         er_date := (case eu_date u of None \<Rightarrow> er_date row | Some v \<Rightarrow> v),
         er_description :=
           (case eu_description u of None \<Rightarrow> er_description row | Some v \<Rightarrow> or_null (Some v)),
         er_updated_at := now\<rparr>"
  by (simp add: expense_assignments_def split: option.split)

lemma createExpense_ok:
  assumes "\<not> trim_is_empty (ei_type x)" and "0 < ei_amount x" and "ei_date x \<noteq> []"
    and "vd (ei_date x)"
  shows "createExpense vd now x d =
     (Inr \<lparr>e_id = next_rowid (expenses_seq d) (map er_id (expenses d)), e_type = ei_type x,
           e_amount = ei_amount x, e_date = ei_date x,
           e_description = or_null (ei_description x), e_createdAt = now, e_updatedAt = now\<rparr>,
      d\<lparr>expenses := expenses d @
           [\<lparr>er_id = next_rowid (expenses_seq d) (map er_id (expenses d)),
             er_type = ei_type x, er_amount = ei_amount x, er_date = ei_date x,
             er_description = or_null (ei_description x), er_created_at = now,
             er_updated_at = now\<rparr>],
         expenses_seq := next_rowid (expenses_seq d) (map er_id (expenses d))\<rparr>)"
proof -
  let ?k = "next_rowid (expenses_seq d) (map er_id (expenses d))"
  have fresh: "\<forall>y \<in> set (expenses d). er_id y \<noteq> ?k"
    using next_rowid_fresh [of _ "map er_id (expenses d)" "expenses_seq d"] by fastforce
  have none: "find (\<lambda>y. er_id y = ?k) (expenses d) = None"
    using fresh by (simp add: find_None_iff)
  have ne: "ei_type x \<noteq> []"
    using assms(1) by (auto simp: trim_is_empty.simps)
  show ?thesis
    using assms none ne
    by (simp add: createExpense_def insert_expense_def select_expense_def find_snoc
        mapRowToExpense_def Let_def or_null_def split: option.split)
qed

lemma createExpense_rejected:
  "\<not> (\<not> trim_is_empty (ei_type x) \<and> 0 < ei_amount x \<and> ei_date x \<noteq> [] \<and> vd (ei_date x)) \<Longrightarrow>
   snd (createExpense vd now x d) = d"
  by (auto simp: createExpense_def)

lemma updateExpense_ok:
  assumes "select_expense i d = Some row"
    and "\<forall>v. eu_amount u = Some v \<longrightarrow> 0 < v"
    and "\<forall>v. eu_date u = Some v \<longrightarrow> vd v"
    and "\<forall>v. eu_type u = Some v \<longrightarrow> \<not> trim_is_empty v"
  shows "updateExpense vd now i u d =
     (Inr (mapRowToExpense (fold assign_expense (expense_assignments now u) row)),
      update_expenses (expense_assignments now u) i d)"
proof -
  have "find (\<lambda>y. er_id y = i)
          (map (\<lambda>y. if er_id y = i then fold assign_expense (expense_assignments now u) y else y)
             (expenses d)) =
        map_option (fold assign_expense (expense_assignments now u))
          (find (\<lambda>y. er_id y = i) (expenses d))"
    by (rule find_map_update) (rule fold_assign_expense_id)
  then have sel: "select_expense i (update_expenses (expense_assignments now u) i d) =
      Some (fold assign_expense (expense_assignments now u) row)"
    using assms(1) by (simp add: select_expense_def update_expenses_def)
  have v1: "\<not> (case eu_amount u of None \<Rightarrow> False | Some v \<Rightarrow> v \<le> 0)"
    using assms(2) by (auto split: option.split)
  have v2: "\<not> (case eu_date u of None \<Rightarrow> False | Some v \<Rightarrow> \<not> vd v)"
    using assms(3) by (auto split: option.split)
  have v3: "\<not> (case eu_type u of None \<Rightarrow> False | Some v \<Rightarrow> trim_is_empty v)"
    using assms(4) by (auto split: option.split)
  show ?thesis
    using v1 v2 v3 sel assms(1) by (simp add: updateExpense_def getExpenseById_def Let_def)
qed

lemma updateExpense_store:
  "snd (updateExpense vd now i u d) = d \<or>
   snd (updateExpense vd now i u d) = update_expenses (expense_assignments now u) i d"
  by (simp add: updateExpense_def Let_def split: option.split)

subsection \<open>Refills\<close>

lemma assign_refill_id: "rr_id (assign_refill a row) = rr_id row"
  by (cases a) simp_all

lemma fold_assign_refill_id: "rr_id (fold assign_refill as row) = rr_id row"
  by (induction as arbitrary: row) (simp_all add: assign_refill_id)

lemma fold_refill_assignments:
  "fold assign_refill (refill_assignments now u eff) row =
     row\<lparr>rr_amount_spent := (case ru_amountSpent u of None \<Rightarrow> rr_amount_spent row | Some v \<Rightarrow> v),
         rr_distance_traveled :=
           (case ru_distanceTraveled u of None \<Rightarrow> rr_distance_traveled row | Some v \<Rightarrow> v),
         rr_date := (case ru_date u of None \<Rightarrow> rr_date row | Some v \<Rightarrow> v),
         rr_notes := (case ru_notes u of None \<Rightarrow> rr_notes row | Some v \<Rightarrow> or_null (Some v)),
         rr_efficiency := Some eff,
         rr_updated_at := now\<rparr>"
  by (simp add: refill_assignments_def split: option.split)

lemma createRefill_ok:
  assumes "0 < ri_amountSpent x" and "0 < ri_distanceTraveled x" and "ri_date x \<noteq> []"
    and "vd (ri_date x)"
  shows "createRefill vd now x d =
     (Inr \<lparr>r_id = next_rowid (refills_seq d) (map rr_id (refills d)),
           r_amountSpent = ri_amountSpent x, r_distanceTraveled = ri_distanceTraveled x,
           r_liters = None, r_date = ri_date x, r_notes = or_null (ri_notes x),
           r_efficiency = Some (ri_amountSpent x / ri_distanceTraveled x),
           r_createdAt = now, r_updatedAt = now\<rparr>,
      d\<lparr>refills := refills d @
           [\<lparr>rr_id = next_rowid (refills_seq d) (map rr_id (refills d)),
             rr_amount_spent = ri_amountSpent x, rr_liters = None,
             rr_distance_traveled = ri_distanceTraveled x, rr_date = ri_date x,
             rr_notes = or_null (ri_notes x),
             rr_efficiency = Some (ri_amountSpent x / ri_distanceTraveled x),
             rr_created_at = now, rr_updated_at = now\<rparr>],
         refills_seq := next_rowid (refills_seq d) (map rr_id (refills d))\<rparr>)"
proof -
  let ?k = "next_rowid (refills_seq d) (map rr_id (refills d))"
  have fresh: "\<forall>y \<in> set (refills d). rr_id y \<noteq> ?k"
    using next_rowid_fresh [of _ "map rr_id (refills d)" "refills_seq d"] by fastforce
  have none: "find (\<lambda>y. rr_id y = ?k) (refills d) = None"
    using fresh by (simp add: find_None_iff)
  show ?thesis
    using assms none
    by (simp add: createRefill_def insert_refill_def select_refill_def find_snoc
        mapRowToRefill_def calculateEfficiency_def Let_def or_null_def split: option.split)
qed

lemma createRefill_rejected:
  "\<not> (0 < ri_amountSpent x \<and> 0 < ri_distanceTraveled x \<and> ri_date x \<noteq> [] \<and> vd (ri_date x)) \<Longrightarrow>
   snd (createRefill vd now x d) = d"
  by (auto simp: createRefill_def)

lemma updateRefill_ok:
  assumes "select_refill i d = Some row"
    and "\<forall>v. ru_amountSpent u = Some v \<longrightarrow> 0 < v"
    and "\<forall>v. ru_distanceTraveled u = Some v \<longrightarrow> 0 < v"
    and "\<forall>v. ru_date u = Some v \<longrightarrow> vd v"
    and "0 < (case ru_distanceTraveled u of None \<Rightarrow> rr_distance_traveled row | Some v \<Rightarrow> v)"
  shows "updateRefill vd now i u d =
     (let eff = (case ru_amountSpent u of None \<Rightarrow> rr_amount_spent row | Some v \<Rightarrow> v) /
                (case ru_distanceTraveled u of None \<Rightarrow> rr_distance_traveled row | Some v \<Rightarrow> v)
      in (Inr (mapRowToRefill (fold assign_refill (refill_assignments now u eff) row)),
          update_refills (refill_assignments now u eff) i d))"
proof -
  define eff where "eff = (case ru_amountSpent u of None \<Rightarrow> rr_amount_spent row | Some v \<Rightarrow> v) /
                (case ru_distanceTraveled u of None \<Rightarrow> rr_distance_traveled row | Some v \<Rightarrow> v)"
  have "find (\<lambda>y. rr_id y = i)
          (map (\<lambda>y. if rr_id y = i then fold assign_refill (refill_assignments now u eff) y else y)
             (refills d)) =
        map_option (fold assign_refill (refill_assignments now u eff))
          (find (\<lambda>y. rr_id y = i) (refills d))"
    by (rule find_map_update) (rule fold_assign_refill_id)
  then have sel: "select_refill i (update_refills (refill_assignments now u eff) i d) =
      Some (fold assign_refill (refill_assignments now u eff) row)"
    using assms(1) by (simp add: select_refill_def update_refills_def)
  have v1: "\<not> (case ru_amountSpent u of None \<Rightarrow> False | Some v \<Rightarrow> v \<le> 0)"
    using assms(2) by (auto split: option.split)
  have v2: "\<not> (case ru_distanceTraveled u of None \<Rightarrow> False | Some v \<Rightarrow> v \<le> 0)"
    using assms(3) by (auto split: option.split)
  have v3: "\<not> (case ru_date u of None \<Rightarrow> False | Some v \<Rightarrow> \<not> vd v)"
    using assms(4) by (auto split: option.split)
  have pos: "0 < (case ru_distanceTraveled u of None \<Rightarrow> rr_distance_traveled row | Some v \<Rightarrow> v)"
    using assms(5) .
  have ce: "calculateEfficiency
      (case ru_amountSpent u of None \<Rightarrow> r_amountSpent (mapRowToRefill row) | Some v \<Rightarrow> v)
      (case ru_distanceTraveled u of None \<Rightarrow> r_distanceTraveled (mapRowToRefill row) | Some v \<Rightarrow> v)
      = Inr eff"
    using pos by (auto simp: calculateEfficiency_def eff_def mapRowToRefill_def split: option.splits)
  have "updateRefill vd now i u d =
      (Inr (mapRowToRefill (fold assign_refill (refill_assignments now u eff) row)),
          update_refills (refill_assignments now u eff) i d)"
    using v1 v2 v3 sel assms(1) ce by (simp add: updateRefill_def getRefillById_def Let_def)
  then show ?thesis by (simp add: eff_def Let_def)
qed

lemma updateRefill_store:
  "snd (updateRefill vd now i u d) = d \<or>
   (\<exists>row. select_refill i d = Some row \<and>
      (\<forall>v. ru_amountSpent u = Some v \<longrightarrow> 0 < v) \<and>
      (\<forall>v. ru_distanceTraveled u = Some v \<longrightarrow> 0 < v) \<and>
      0 < (case ru_distanceTraveled u of None \<Rightarrow> rr_distance_traveled row | Some v \<Rightarrow> v) \<and>
      snd (updateRefill vd now i u d) =
        update_refills
          (refill_assignments now u
             ((case ru_amountSpent u of None \<Rightarrow> rr_amount_spent row | Some v \<Rightarrow> v) /
              (case ru_distanceTraveled u of None \<Rightarrow> rr_distance_traveled row | Some v \<Rightarrow> v)))
          i d)"
  by (auto simp: updateRefill_def Let_def getRefillById_def calculateEfficiency_def
      mapRowToRefill_def split: option.split sum.split if_splits)

subsection \<open>What each call leaves in the store\<close>

lemma createTrip_store:
  "snd (createTrip vd now x d) = d \<or>
   (\<exists>row. tr_id row = next_rowid (trips_seq d) (map tr_id (trips d)) \<and>
      tr_created_at row = now \<and> tr_updated_at row = now \<and>
      snd (createTrip vd now x d) = d\<lparr>trips := trips d @ [row], trips_seq := tr_id row\<rparr>)"
proof (cases "0 < ti_distance x \<and> ti_date x \<noteq> [] \<and> vd (ti_date x)")
  case True
  let ?row = "\<lparr>tr_id = next_rowid (trips_seq d) (map tr_id (trips d)), tr_distance = ti_distance x,
      tr_date = ti_date x, tr_purpose = or_null (ti_purpose x), tr_notes = or_null (ti_notes x),
      tr_created_at = now, tr_updated_at = now\<rparr>"
  from True have "snd (createTrip vd now x d) = d\<lparr>trips := trips d @ [?row], trips_seq := tr_id ?row\<rparr>"
    by (simp add: createTrip_ok)
  then show ?thesis
    by (intro disjI2 exI [of _ ?row]) simp
next
  case False
  then show ?thesis by (simp add: createTrip_rejected)
qed

lemma createExpense_store:
  "snd (createExpense vd now x d) = d \<or>
   (\<exists>row. er_id row = next_rowid (expenses_seq d) (map er_id (expenses d)) \<and>
      er_created_at row = now \<and> er_updated_at row = now \<and>
      snd (createExpense vd now x d) =
        d\<lparr>expenses := expenses d @ [row], expenses_seq := er_id row\<rparr>)"
proof (cases "\<not> trim_is_empty (ei_type x) \<and> 0 < ei_amount x \<and> ei_date x \<noteq> [] \<and> vd (ei_date x)")
  case True
  let ?row = "\<lparr>er_id = next_rowid (expenses_seq d) (map er_id (expenses d)),
      er_type = ei_type x, er_amount = ei_amount x, er_date = ei_date x,
      er_description = or_null (ei_description x), er_created_at = now, er_updated_at = now\<rparr>"
  from True have "snd (createExpense vd now x d) =
      d\<lparr>expenses := expenses d @ [?row], expenses_seq := er_id ?row\<rparr>"
    by (simp add: createExpense_ok)
  then show ?thesis
    by (intro disjI2 exI [of _ ?row]) simp
next
  case False
  then show ?thesis by (simp add: createExpense_rejected)
qed

lemma createRefill_store:
  "snd (createRefill vd now x d) = d \<or>
   (\<exists>row. rr_id row = next_rowid (refills_seq d) (map rr_id (refills d)) \<and>
      rr_created_at row = now \<and> rr_updated_at row = now \<and> refill_row_ok row \<and>
      snd (createRefill vd now x d) =
        d\<lparr>refills := refills d @ [row], refills_seq := rr_id row\<rparr>)"
proof (cases "0 < ri_amountSpent x \<and> 0 < ri_distanceTraveled x \<and> ri_date x \<noteq> [] \<and> vd (ri_date x)")
  case True
  let ?row = "\<lparr>rr_id = next_rowid (refills_seq d) (map rr_id (refills d)),
      rr_amount_spent = ri_amountSpent x, rr_liters = None,
      rr_distance_traveled = ri_distanceTraveled x, rr_date = ri_date x,
      rr_notes = or_null (ri_notes x),
      rr_efficiency = Some (ri_amountSpent x / ri_distanceTraveled x),
      rr_created_at = now, rr_updated_at = now\<rparr>"
  from True have "snd (createRefill vd now x d) =
      d\<lparr>refills := refills d @ [?row], refills_seq := rr_id ?row\<rparr>"
    by (simp add: createRefill_ok)
  moreover from True have "refill_row_ok ?row"
    by (simp add: refill_row_ok_def)
  ultimately show ?thesis
    by (intro disjI2 exI [of _ ?row]) simp
next
  case False
  then show ?thesis by (simp add: createRefill_rejected)
qed

subsection \<open>Rowids\<close>

lemma rowids_ok_snoc:
  assumes "rowids_ok seq ids"
  shows "rowids_ok (next_rowid seq ids) (ids @ [next_rowid seq ids])"
proof -
  have "\<forall>i \<in> set ids. i < next_rowid seq ids"
    by (simp add: next_rowid_fresh)
  then show ?thesis
    using assms by (fastforce simp: rowids_ok_def sorted_wrt_append list_all_iff)
qed

lemma rowids_ok_filter:
  "rowids_ok seq (map key rows) \<Longrightarrow> rowids_ok seq (map key (filter P rows))"
proof (induction rows)
  case Nil
  then show ?case by simp
next
  case (Cons a rows)
  then show ?case by (auto simp: rowids_ok_def)
qed

lemma map_key_update:
  "(\<And>y. key (f y) = key y) \<Longrightarrow> map key (map (\<lambda>y. if key y = i then f y else y) rows) = map key rows"
  by (induction rows) simp_all

lemma rowids_distinct: "rowids_ok seq ids \<Longrightarrow> distinct ids"
  by (simp add: rowids_ok_def strict_sorted_iff)

lemma keys_ok_empty: "keys_ok emptyDb"
  by (simp add: keys_ok_def emptyDb_def rowids_ok_def)

lemma update_trips_ids: "map tr_id (trips (update_trips as i d)) = map tr_id (trips d)"
proof -
  have "map tr_id (map (\<lambda>y. if tr_id y = i then fold assign_trip as y else y) (trips d)) =
      map tr_id (trips d)"
    by (rule map_key_update) (rule fold_assign_trip_id)
  then show ?thesis by (simp add: update_trips_def)
qed

lemma update_expenses_ids:
  "map er_id (expenses (update_expenses as i d)) = map er_id (expenses d)"
proof -
  have "map er_id (map (\<lambda>y. if er_id y = i then fold assign_expense as y else y) (expenses d)) =
      map er_id (expenses d)"
    by (rule map_key_update) (rule fold_assign_expense_id)
  then show ?thesis by (simp add: update_expenses_def)
qed

lemma update_refills_ids:
  "map rr_id (refills (update_refills as i d)) = map rr_id (refills d)"
proof -
  have "map rr_id (map (\<lambda>y. if rr_id y = i then fold assign_refill as y else y) (refills d)) =
      map rr_id (refills d)"
    by (rule map_key_update) (rule fold_assign_refill_id)
  then show ?thesis by (simp add: update_refills_def)
qed

lemma keys_ok_update_trips: "keys_ok d \<Longrightarrow> keys_ok (update_trips as i d)"
  using update_trips_ids [of as i d] by (simp add: keys_ok_def) (simp add: update_trips_def)

lemma keys_ok_update_expenses: "keys_ok d \<Longrightarrow> keys_ok (update_expenses as i d)"
  using update_expenses_ids [of as i d] by (simp add: keys_ok_def) (simp add: update_expenses_def)

lemma keys_ok_update_refills: "keys_ok d \<Longrightarrow> keys_ok (update_refills as i d)"
  using update_refills_ids [of as i d] by (simp add: keys_ok_def) (simp add: update_refills_def)

lemma perform_keys_ok:
  assumes "keys_ok d"
  shows "keys_ok (perform vd x d)"
proof (cases x)
  case (CreateExpense now y)
  show ?thesis
    using createExpense_store [of vd now y d] assms rowids_ok_snoc [of "expenses_seq d" "map er_id (expenses d)"]
    by (auto simp: CreateExpense keys_ok_def)
next
  case (UpdateExpense now i u)
  show ?thesis
    using updateExpense_store [of vd now i u d] assms keys_ok_update_expenses [of d]
    by (auto simp: UpdateExpense)
next
  case (DeleteExpense i)
  show ?thesis
    using assms rowids_ok_filter [of "expenses_seq d" er_id "expenses d"]
    by (simp add: DeleteExpense deleteExpense_def keys_ok_def Let_def)
next
  case (CreateRefill now y)
  show ?thesis
    using createRefill_store [of vd now y d] assms rowids_ok_snoc [of "refills_seq d" "map rr_id (refills d)"]
    by (auto simp: CreateRefill keys_ok_def)
next
  case (UpdateRefill now i u)
  show ?thesis
    using updateRefill_store [of vd now i u d] assms keys_ok_update_refills [of d]
    by (auto simp: UpdateRefill)
next
  case (DeleteRefill i)
  show ?thesis
    using assms rowids_ok_filter [of "refills_seq d" rr_id "refills d"]
    by (simp add: DeleteRefill deleteRefill_def keys_ok_def Let_def)
next
  case (CreateTrip now y)
  show ?thesis
    using createTrip_store [of vd now y d] assms rowids_ok_snoc [of "trips_seq d" "map tr_id (trips d)"]
    by (auto simp: CreateTrip keys_ok_def)
next
  case (UpdateTrip now i u)
  show ?thesis
    using updateTrip_store [of vd now i u d] assms keys_ok_update_trips [of d]
    by (auto simp: UpdateTrip)
next
  case (DeleteTrip i)
  show ?thesis
    using assms rowids_ok_filter [of "trips_seq d" tr_id "trips d"]
    by (simp add: DeleteTrip deleteTrip_def keys_ok_def Let_def)
qed

lemma run_keys_ok: "keys_ok d \<Longrightarrow> keys_ok (run vd ops d)"
  unfolding run_def by (induction ops arbitrary: d) (simp_all add: perform_keys_ok)

subsection \<open>The efficiency invariant\<close>

lemma unique_key:
  "distinct (map key xs) \<Longrightarrow> find (\<lambda>y. key y = i) xs = Some x \<Longrightarrow> y \<in> set xs \<Longrightarrow> key y = i \<Longrightarrow>
   y = x"
proof -
  assume d: "distinct (map key xs)" and f: "find (\<lambda>y. key y = i) xs = Some x"
    and y: "y \<in> set xs" and k: "key y = i"
  from f have "key x = i" and "x \<in> set xs"
    using find_key [of key i xs x] by simp_all
  with d y k show ?thesis
    by (metis distinct_map inj_onD)
qed

lemma patched_refill_row_ok:
  assumes "refill_row_ok row"
    and "\<forall>v. ru_amountSpent u = Some v \<longrightarrow> 0 < v"
    and "\<forall>v. ru_distanceTraveled u = Some v \<longrightarrow> 0 < v"
  shows "refill_row_ok
     (fold assign_refill
        (refill_assignments now u
           ((case ru_amountSpent u of None \<Rightarrow> rr_amount_spent row | Some v \<Rightarrow> v) /
            (case ru_distanceTraveled u of None \<Rightarrow> rr_distance_traveled row | Some v \<Rightarrow> v)))
        row)"
  using assms by (auto simp: fold_refill_assignments refill_row_ok_def split: option.splits)

lemma update_refills_ok:
  assumes keys: "keys_ok d" and inv: "refills_ok d" and sel: "select_refill i d = Some row"
    and a: "\<forall>v. ru_amountSpent u = Some v \<longrightarrow> 0 < v"
    and b: "\<forall>v. ru_distanceTraveled u = Some v \<longrightarrow> 0 < v"
  shows "refills_ok
     (update_refills
        (refill_assignments now u
           ((case ru_amountSpent u of None \<Rightarrow> rr_amount_spent row | Some v \<Rightarrow> v) /
            (case ru_distanceTraveled u of None \<Rightarrow> rr_distance_traveled row | Some v \<Rightarrow> v)))
        i d)"
proof -
  have dist: "distinct (map rr_id (refills d))"
    using keys rowids_distinct [of "refills_seq d" "map rr_id (refills d)"]
    by (simp add: keys_ok_def)
  have rowin: "row \<in> set (refills d)"
    using sel find_key [of rr_id i "refills d" row] by (simp add: select_refill_def)
  have rowok: "refill_row_ok row"
    using inv rowin by (simp add: refills_ok_def list_all_iff)
  have same: "y = row" if "y \<in> set (refills d)" and "rr_id y = i" for y
    using unique_key [OF dist _ that] sel by (simp add: select_refill_def)
  show ?thesis
    using inv same patched_refill_row_ok [OF rowok a b, of now]
    by (auto simp: refills_ok_def update_refills_def list_all_iff)
qed

lemma refills_ok_empty: "refills_ok emptyDb"
  by (simp add: refills_ok_def emptyDb_def)

lemma perform_refills_ok:
  assumes "keys_ok d" and "refills_ok d"
  shows "refills_ok (perform vd x d)"
proof (cases x)
  case (CreateExpense now y)
  show ?thesis
    using createExpense_store [of vd now y d] assms(2)
    by (auto simp: CreateExpense refills_ok_def)
next
  case (UpdateExpense now i u)
  show ?thesis
    using updateExpense_store [of vd now i u d] assms(2)
    by (auto simp: UpdateExpense refills_ok_def update_expenses_def)
next
  case (DeleteExpense i)
  show ?thesis
    using assms(2) by (simp add: DeleteExpense deleteExpense_def refills_ok_def Let_def)
next
  case (CreateRefill now y)
  show ?thesis
    using createRefill_store [of vd now y d] assms(2)
    by (auto simp: CreateRefill refills_ok_def)
next
  case (UpdateRefill now i u)
  show ?thesis
    using updateRefill_store [of vd now i u d] assms update_refills_ok [of d i _ u now]
    by (auto simp: UpdateRefill)
next
  case (DeleteRefill i)
  show ?thesis
    using assms(2) by (simp add: DeleteRefill deleteRefill_def refills_ok_def Let_def list_all_iff)
next
  case (CreateTrip now y)
  show ?thesis
    using createTrip_store [of vd now y d] assms(2)
    by (auto simp: CreateTrip refills_ok_def)
next
  case (UpdateTrip now i u)
  show ?thesis
    using updateTrip_store [of vd now i u d] assms(2)
    by (auto simp: UpdateTrip refills_ok_def update_trips_def)
next
  case (DeleteTrip i)
  show ?thesis
    using assms(2) by (simp add: DeleteTrip deleteTrip_def refills_ok_def Let_def)
qed

lemma run_refills_ok: "keys_ok d \<Longrightarrow> refills_ok d \<Longrightarrow> refills_ok (run vd ops d)"
  unfolding run_def
  by (induction ops arbitrary: d) (simp_all add: perform_refills_ok perform_keys_ok)

subsection \<open>Timestamps\<close>

lemma stamps_ok_empty: "stamps_ok t emptyDb"
  by (simp add: stamps_ok_def emptyDb_def)

lemma stamps_ok_mono: "stamps_ok t d \<Longrightarrow> t \<le> t' \<Longrightarrow> stamps_ok t' d"
  by (fastforce simp: stamps_ok_def list_all_iff)

lemma stamps_ok_update_trips:
  assumes "stamps_ok t d" and "t \<le> now"
  shows "stamps_ok now (update_trips (trip_assignments now u) i d)"
proof -
  have "stamps_ok now d"
    using assms by (rule stamps_ok_mono)
  moreover have "tr_created_at row \<le> now" if "row \<in> set (trips d)" for row
    using assms that by (fastforce simp: stamps_ok_def list_all_iff)
  ultimately show ?thesis
    by (auto simp: stamps_ok_def update_trips_def list_all_iff fold_trip_assignments)
qed

lemma stamps_ok_update_expenses:
  assumes "stamps_ok t d" and "t \<le> now"
  shows "stamps_ok now (update_expenses (expense_assignments now u) i d)"
proof -
  have "stamps_ok now d"
    using assms by (rule stamps_ok_mono)
  moreover have "er_created_at row \<le> now" if "row \<in> set (expenses d)" for row
    using assms that by (fastforce simp: stamps_ok_def list_all_iff)
  ultimately show ?thesis
    by (auto simp: stamps_ok_def update_expenses_def list_all_iff fold_expense_assignments)
qed

lemma stamps_ok_update_refills:
  assumes "stamps_ok t d" and "t \<le> now"
  shows "stamps_ok now (update_refills (refill_assignments now u eff) i d)"
proof -
  have "stamps_ok now d"
    using assms by (rule stamps_ok_mono)
  moreover have "rr_created_at row \<le> now" if "row \<in> set (refills d)" for row
    using assms that by (fastforce simp: stamps_ok_def list_all_iff)
  ultimately show ?thesis
    by (auto simp: stamps_ok_def update_refills_def list_all_iff fold_refill_assignments)
qed

lemma stamps_ok_filter:
  "stamps_ok t d \<Longrightarrow>
   stamps_ok t (d\<lparr>expenses := filter P (expenses d)\<rparr>) \<and>
   stamps_ok t (d\<lparr>refills := filter Q (refills d)\<rparr>) \<and>
   stamps_ok t (d\<lparr>trips := filter R (trips d)\<rparr>)"
  by (simp add: stamps_ok_def list_all_iff)

lemma perform_stamps_ok:
  assumes "stamps_ok t d" and "\<forall>now. op_time x = Some now \<longrightarrow> t \<le> now"
  shows "stamps_ok (case op_time x of None \<Rightarrow> t | Some now \<Rightarrow> now) (perform vd x d)"
proof (cases x)
  case (CreateExpense now y)
  then have le: "t \<le> now" using assms(2) by simp
  have "stamps_ok now d" using assms(1) le by (rule stamps_ok_mono)
  then show ?thesis
    using createExpense_store [of vd now y d]
    by (auto simp: CreateExpense stamps_ok_def)
next
  case (UpdateExpense now i u)
  then have le: "t \<le> now" using assms(2) by simp
  show ?thesis
    using updateExpense_store [of vd now i u d] stamps_ok_update_expenses [OF assms(1) le]
      stamps_ok_mono [OF assms(1) le]
    by (auto simp: UpdateExpense)
next
  case (DeleteExpense i)
  show ?thesis
    using stamps_ok_filter [OF assms(1)] by (simp add: DeleteExpense deleteExpense_def Let_def)
next
  case (CreateRefill now y)
  then have le: "t \<le> now" using assms(2) by simp
  have "stamps_ok now d" using assms(1) le by (rule stamps_ok_mono)
  then show ?thesis
    using createRefill_store [of vd now y d]
    by (auto simp: CreateRefill stamps_ok_def)
next
  case (UpdateRefill now i u)
  then have le: "t \<le> now" using assms(2) by simp
  show ?thesis
    using updateRefill_store [of vd now i u d] stamps_ok_update_refills [OF assms(1) le]
      stamps_ok_mono [OF assms(1) le]
    by (auto simp: UpdateRefill)
next
  case (DeleteRefill i)
  show ?thesis
    using stamps_ok_filter [OF assms(1)] by (simp add: DeleteRefill deleteRefill_def Let_def)
next
  case (CreateTrip now y)
  then have le: "t \<le> now" using assms(2) by simp
  have "stamps_ok now d" using assms(1) le by (rule stamps_ok_mono)
  then show ?thesis
    using createTrip_store [of vd now y d]
    by (auto simp: CreateTrip stamps_ok_def)
next
  case (UpdateTrip now i u)
  then have le: "t \<le> now" using assms(2) by simp
  show ?thesis
    using updateTrip_store [of vd now i u d] stamps_ok_update_trips [OF assms(1) le]
      stamps_ok_mono [OF assms(1) le]
    by (auto simp: UpdateTrip)
next
  case (DeleteTrip i)
  show ?thesis
    using stamps_ok_filter [OF assms(1)] by (simp add: DeleteTrip deleteTrip_def Let_def)
qed

lemma run_stamps_ok:
  "stamps_ok t d \<Longrightarrow> clock_monotone t ops \<Longrightarrow> stamps_ok (last_time t ops) (run vd ops d)"
proof (induction ops arbitrary: t d)
  case Nil
  then show ?case by (simp add: run_def)
next
  case (Cons x ops)
  show ?case
  proof (cases "op_time x")
    case None
    have "stamps_ok t (perform vd x d)"
      using perform_stamps_ok [of t d x vd] Cons.prems(1) None by simp
    moreover have "clock_monotone t ops"
      using Cons.prems(2) None by simp
    ultimately have "stamps_ok (last_time t ops) (run vd ops (perform vd x d))"
      by (rule Cons.IH)
    then show ?thesis by (simp add: None run_def)
  next
    case (Some now)
    have le: "t \<le> now" and mono: "clock_monotone now ops"
      using Cons.prems(2) Some by simp_all
    have "stamps_ok now (perform vd x d)"
      using perform_stamps_ok [of t d x vd] Cons.prems(1) Some le by simp
    then have "stamps_ok (last_time now ops) (run vd ops (perform vd x d))"
      using mono by (rule Cons.IH)
    then show ?thesis by (simp add: Some run_def)
  qed
qed

section \<open>The password gate\<close>

text \<open>
  C9. \<open>verifyPassword\<close> fails with the configuration error when \<open>APP_PASSWORD\<close> is unset
  (or empty, which JavaScript treats alike), and that failure is not the answer
  \<open>false\<close> of a wrong password: the login route turns the first into status 500 and the
  second into 401. With a password configured the result is the equality of the two
  strings. The function reads the environment and its argument only.
\<close>

theorem verifyPassword_configuration_error:
  "(APP_PASSWORD ev = None \<or> APP_PASSWORD ev = Some [] \<longrightarrow>
      verifyPassword ev password =
        Inl (Error ''APP_PASSWORD environment variable is not configured'') \<and>
      verifyPassword ev password \<noteq> Inr False \<and>
      (password \<noteq> [] \<longrightarrow> fst (login_POST jwtSign ev now (Some password)) = 500)) \<and>
   (\<forall>secret. APP_PASSWORD ev = Some secret \<and> secret \<noteq> [] \<longrightarrow>
      verifyPassword ev password = Inr (password = secret) \<and>
      (password \<noteq> [] \<and> password \<noteq> secret \<longrightarrow>
         fst (login_POST jwtSign ev now (Some password)) = 401))"
  by (auto simp: verifyPassword_def login_POST_def split: option.splits)

theorem verifyPassword_configuration_error_witness:
  "verifyPassword (test_env\<lparr>APP_PASSWORD := None\<rparr>) ''any-password'' =
     Inl (Error ''APP_PASSWORD environment variable is not configured'') \<and>
   fst (login_POST (\<lambda>payload secret expiresIn. Inr ''token'') (test_env\<lparr>APP_PASSWORD := None\<rparr>)
          ''2024-01-15T10:00:00.000Z'' (Some ''any-password'')) = 500 \<and>
   verifyPassword test_env ''test-password-123'' = Inr True \<and>
   verifyPassword test_env ''wrong-password'' = Inr False \<and>
   fst (login_POST (\<lambda>payload secret expiresIn. Inr ''token'') test_env
          ''2024-01-15T10:00:00.000Z'' (Some ''wrong-password'')) = 401"
  using verifyPassword_configuration_error
      [of "test_env\<lparr>APP_PASSWORD := None\<rparr>" "''any-password''"
          "\<lambda>payload secret expiresIn. Inr ''token''" "''2024-01-15T10:00:00.000Z''"]
    verifyPassword_configuration_error
      [of test_env "''wrong-password''"
          "\<lambda>payload secret expiresIn. Inr ''token''" "''2024-01-15T10:00:00.000Z''"]
    verifyPassword_configuration_error [of test_env "''test-password-123''"]
  by simp

section \<open>Session validation\<close>

text \<open>
  C3. \<open>validateSession\<close> always returns a boolean, never an exception. It returns true
  exactly when a signing secret is configured, the library's \<open>verify\<close> accepts the
  token against that secret (its signature verifies and it has not expired) and the
  decoded claim has the property \<open>authenticated\<close> with the value \<open>true\<close>; whatever
  \<open>verify\<close> throws (bad signature, another secret, malformed or expired token) gives
  false.
\<close>

theorem validateSession_true_iff:
  "(\<exists>b. validateSession jwtVerify ev token = Inr b) \<and>
   (validateSession jwtVerify ev token = Inr True \<longleftrightarrow>
      (\<exists>secret props. JWT_SECRET ev = Some secret \<and> secret \<noteq> [] \<and>
         jwtVerify token secret = Inr (JObj props) \<and>
         map_of props ''authenticated'' = Some (JBool True))) \<and>
   (\<forall>secret err. JWT_SECRET ev = Some secret \<and> jwtVerify token secret = Inl err \<longrightarrow>
      validateSession jwtVerify ev token = Inr False)"
proof (intro conjI allI impI)
  show "\<exists>b. validateSession jwtVerify ev token = Inr b"
    by (cases "validateSession_try jwtVerify ev token") (auto simp: validateSession_def)
next
  show "validateSession jwtVerify ev token = Inr True \<longleftrightarrow>
      (\<exists>secret props. JWT_SECRET ev = Some secret \<and> secret \<noteq> [] \<and>
         jwtVerify token secret = Inr (JObj props) \<and>
         map_of props ''authenticated'' = Some (JBool True))"
    by (auto simp: validateSession_def validateSession_try_def getJwtSecret_def
        authenticated_is_true_def split: sum.splits option.splits if_splits json.splits)
next
  fix secret err
  assume "JWT_SECRET ev = Some secret \<and> jwtVerify token secret = Inl err"
  then show "validateSession jwtVerify ev token = Inr False"
    by (simp add: validateSession_def validateSession_try_def getJwtSecret_def)
qed

theorem validateSession_true_iff_witness:
  "validateSession test_jwtVerify test_env ''token-of-test-secret-key'' = Inr True \<and>
   validateSession test_jwtVerify test_env ''expired-token-of-test-secret-key'' = Inr False \<and>
   validateSession test_jwtVerify test_env ''invalid-token'' = Inr False \<and>
   validateSession test_jwtVerify (test_env\<lparr>JWT_SECRET := Some ''another-secret''\<rparr>)
     ''token-of-test-secret-key'' = Inr False"
proof -
  have "validateSession test_jwtVerify test_env ''token-of-test-secret-key'' = Inr True"
    using validateSession_true_iff [of test_jwtVerify test_env "''token-of-test-secret-key''"]
    by simp
  moreover have
    "validateSession test_jwtVerify test_env ''expired-token-of-test-secret-key'' = Inr False"
    using validateSession_true_iff
      [of test_jwtVerify test_env "''expired-token-of-test-secret-key''"]
    by simp
  moreover have "validateSession test_jwtVerify test_env ''invalid-token'' = Inr False"
    using validateSession_true_iff [of test_jwtVerify test_env "''invalid-token''"]
    by simp
  moreover have
    "validateSession test_jwtVerify (test_env\<lparr>JWT_SECRET := Some ''another-secret''\<rparr>)
       ''token-of-test-secret-key'' = Inr False"
    using validateSession_true_iff
      [of test_jwtVerify "test_env\<lparr>JWT_SECRET := Some ''another-secret''\<rparr>"
          "''token-of-test-secret-key''"]
    by simp
  ultimately show ?thesis by simp
qed

text \<open>
  C10. With no signing secret configured (unset or empty), \<open>getJwtSecret\<close> throws inside
  the \<open>try\<close> block and \<open>validateSession\<close> answers false for every token: the
  configuration error does not reach the caller, and the answer is the one an invalid
  or expired token gets under a configured secret.
\<close>

theorem validateSession_swallows_missing_secret:
  assumes "JWT_SECRET ev = None \<or> JWT_SECRET ev = Some []"
  shows "validateSession_try jwtVerify ev token =
           Inl (Error ''JWT_SECRET environment variable is not configured'') \<and>
         validateSession jwtVerify ev token = Inr False \<and>
         (\<forall>ev' token' secret err.
            JWT_SECRET ev' = Some secret \<and> jwtVerify token' secret = Inl err \<longrightarrow>
            validateSession jwtVerify ev' token' = validateSession jwtVerify ev token)"
  using assms
  by (auto simp: validateSession_def validateSession_try_def getJwtSecret_def)

theorem validateSession_swallows_missing_secret_witness:
  "validateSession_try test_jwtVerify (test_env\<lparr>JWT_SECRET := None\<rparr>)
     ''token-of-test-secret-key'' =
     Inl (Error ''JWT_SECRET environment variable is not configured'') \<and>
   validateSession test_jwtVerify (test_env\<lparr>JWT_SECRET := None\<rparr>)
     ''token-of-test-secret-key'' = Inr False \<and>
   validateSession test_jwtVerify test_env ''expired-token-of-test-secret-key'' =
     validateSession test_jwtVerify (test_env\<lparr>JWT_SECRET := None\<rparr>)
       ''token-of-test-secret-key''"
proof -
  have h: "JWT_SECRET (test_env\<lparr>JWT_SECRET := None\<rparr>) = None \<or>
           JWT_SECRET (test_env\<lparr>JWT_SECRET := None\<rparr>) = Some []"
    by simp
  have e: "JWT_SECRET test_env = Some ''test-secret-key'' \<and>
           test_jwtVerify ''expired-token-of-test-secret-key'' ''test-secret-key'' =
             Inl TokenExpiredError"
    by simp
  show ?thesis
    using validateSession_swallows_missing_secret
        [OF h, of test_jwtVerify "''token-of-test-secret-key''"] e
    by blast
qed

section \<open>Successful updates\<close>

text \<open>
  An update that returns an entity found the row, wrote the collected assignments to it
  and returns the row as read back.
\<close>

lemma updateExpense_Inr:
  assumes "updateExpense vd now i u d = (Inr e', d')"
  shows "\<exists>row. select_expense i d = Some row \<and>
           e' = mapRowToExpense (fold assign_expense (expense_assignments now u) row) \<and>
           d' = update_expenses (expense_assignments now u) i d \<and>
           select_expense i d' = Some (fold assign_expense (expense_assignments now u) row)"
proof -
  from assms obtain row where sel: "select_expense i d = Some row"
    by (auto simp: updateExpense_def getExpenseById_def split: if_splits option.splits)
  from assms have v: "\<forall>v. eu_amount u = Some v \<longrightarrow> 0 < v" "\<forall>v. eu_date u = Some v \<longrightarrow> vd v"
    "\<forall>v. eu_type u = Some v \<longrightarrow> \<not> trim_is_empty v"
    by (auto simp: updateExpense_def split: if_splits)
  have eq: "updateExpense vd now i u d =
      (Inr (mapRowToExpense (fold assign_expense (expense_assignments now u) row)),
       update_expenses (expense_assignments now u) i d)"
    using sel v by (rule updateExpense_ok)
  have "find (\<lambda>y. er_id y = i)
          (map (\<lambda>y. if er_id y = i then fold assign_expense (expense_assignments now u) y else y)
             (expenses d)) =
        map_option (fold assign_expense (expense_assignments now u))
          (find (\<lambda>y. er_id y = i) (expenses d))"
    by (rule find_map_update) (rule fold_assign_expense_id)
  then have "select_expense i (update_expenses (expense_assignments now u) i d) =
      Some (fold assign_expense (expense_assignments now u) row)"
    using sel by (simp add: select_expense_def update_expenses_def)
  with eq assms sel show ?thesis by simp
qed

lemma updateTrip_Inr:
  assumes "updateTrip vd now i u d = (Inr t', d')"
  shows "\<exists>row. select_trip i d = Some row \<and>
           t' = mapRowToTrip (fold assign_trip (trip_assignments now u) row) \<and>
           d' = update_trips (trip_assignments now u) i d \<and>
           select_trip i d' = Some (fold assign_trip (trip_assignments now u) row)"
proof -
  from assms obtain row where sel: "select_trip i d = Some row"
    by (auto simp: updateTrip_def getTripById_def split: if_splits option.splits)
  from assms have v: "\<forall>v. tu_distance u = Some v \<longrightarrow> 0 < v" "\<forall>v. tu_date u = Some v \<longrightarrow> vd v"
    by (auto simp: updateTrip_def split: if_splits)
  have eq: "updateTrip vd now i u d =
      (Inr (mapRowToTrip (fold assign_trip (trip_assignments now u) row)),
       update_trips (trip_assignments now u) i d)"
    using sel v by (rule updateTrip_ok)
  have "find (\<lambda>y. tr_id y = i)
          (map (\<lambda>y. if tr_id y = i then fold assign_trip (trip_assignments now u) y else y)
             (trips d)) =
        map_option (fold assign_trip (trip_assignments now u)) (find (\<lambda>y. tr_id y = i) (trips d))"
    by (rule find_map_update) (rule fold_assign_trip_id)
  then have "select_trip i (update_trips (trip_assignments now u) i d) =
      Some (fold assign_trip (trip_assignments now u) row)"
    using sel by (simp add: select_trip_def update_trips_def)
  with eq assms sel show ?thesis by simp
qed

lemma updateRefill_Inr:
  assumes "updateRefill vd now i u d = (Inr r', d')"
  shows "\<exists>row eff. select_refill i d = Some row \<and>
           eff = (case ru_amountSpent u of None \<Rightarrow> rr_amount_spent row | Some v \<Rightarrow> v) /
                 (case ru_distanceTraveled u of None \<Rightarrow> rr_distance_traveled row | Some v \<Rightarrow> v) \<and>
           0 < (case ru_distanceTraveled u of None \<Rightarrow> rr_distance_traveled row | Some v \<Rightarrow> v) \<and>
           r' = mapRowToRefill (fold assign_refill (refill_assignments now u eff) row) \<and>
           d' = update_refills (refill_assignments now u eff) i d \<and>
           select_refill i d' = Some (fold assign_refill (refill_assignments now u eff) row)"
proof -
  from assms obtain row where sel: "select_refill i d = Some row"
    by (auto simp: updateRefill_def getRefillById_def split: if_splits option.splits)
  define eff where "eff = (case ru_amountSpent u of None \<Rightarrow> rr_amount_spent row | Some v \<Rightarrow> v) /
                 (case ru_distanceTraveled u of None \<Rightarrow> rr_distance_traveled row | Some v \<Rightarrow> v)"
  from assms have v: "\<forall>v. ru_amountSpent u = Some v \<longrightarrow> 0 < v"
    "\<forall>v. ru_distanceTraveled u = Some v \<longrightarrow> 0 < v" "\<forall>v. ru_date u = Some v \<longrightarrow> vd v"
    by (auto simp: updateRefill_def split: if_splits)
  from assms sel have pos:
    "0 < (case ru_distanceTraveled u of None \<Rightarrow> rr_distance_traveled row | Some v \<Rightarrow> v)"
    by (auto simp: updateRefill_def getRefillById_def calculateEfficiency_def mapRowToRefill_def
        Let_def split: if_splits option.splits)
  have eq: "updateRefill vd now i u d =
      (Inr (mapRowToRefill (fold assign_refill (refill_assignments now u eff) row)),
       update_refills (refill_assignments now u eff) i d)"
    using updateRefill_ok [OF sel v pos, of now] by (simp add: eff_def Let_def)
  have "find (\<lambda>y. rr_id y = i)
          (map (\<lambda>y. if rr_id y = i then fold assign_refill (refill_assignments now u eff) y else y)
             (refills d)) =
        map_option (fold assign_refill (refill_assignments now u eff))
          (find (\<lambda>y. rr_id y = i) (refills d))"
    by (rule find_map_update) (rule fold_assign_refill_id)
  then have "select_refill i (update_refills (refill_assignments now u eff) i d) =
      Some (fold assign_refill (refill_assignments now u eff) row)"
    using sel by (simp add: select_refill_def update_refills_def)
  with eq assms sel pos show ?thesis by (simp add: eff_def)
qed

section \<open>The liters of a refill\<close>

text \<open>
  C5. A refill created with \<open>liters\<close> should carry that value when it is returned and
  read back. The service does not: the INSERT of \<open>createRefill\<close> leaves the column out
  and \<open>mapRowToRefill\<close> copies no such property, so for the input
  \<open>{amountSpent: 50, distanceTraveled: 10, liters: 40, date: ...}\<close> the created entity, the
  entity \<open>getRefillById\<close> returns and the one in \<open>getRefills\<close> all lack \<open>liters\<close>, and the
  stored column is NULL.
\<close>

theorem createRefill_drops_liters:
  "createRefill test_validDate ''2024-01-16T08:00:00.000Z''
     \<lparr>ri_amountSpent = 50, ri_distanceTraveled = 10, ri_liters = Some 40,
      ri_date = ''2024-01-15T10:00:00.000Z'', ri_notes = None\<rparr> emptyDb =
     (Inr \<lparr>r_id = 1, r_amountSpent = 50, r_distanceTraveled = 10, r_liters = None,
           r_date = ''2024-01-15T10:00:00.000Z'', r_notes = None, r_efficiency = Some 5,
           r_createdAt = ''2024-01-16T08:00:00.000Z'',
           r_updatedAt = ''2024-01-16T08:00:00.000Z''\<rparr>,
      emptyDb\<lparr>refills :=
          [\<lparr>rr_id = 1, rr_amount_spent = 50, rr_liters = None, rr_distance_traveled = 10,
            rr_date = ''2024-01-15T10:00:00.000Z'', rr_notes = None, rr_efficiency = Some 5,
            rr_created_at = ''2024-01-16T08:00:00.000Z'',
            rr_updated_at = ''2024-01-16T08:00:00.000Z''\<rparr>],
        refills_seq := 1\<rparr>) \<and>
   map_option r_liters
     (getRefillById 1
        (snd (createRefill test_validDate ''2024-01-16T08:00:00.000Z''
           \<lparr>ri_amountSpent = 50, ri_distanceTraveled = 10, ri_liters = Some 40,
            ri_date = ''2024-01-15T10:00:00.000Z'', ri_notes = None\<rparr> emptyDb))) = Some None \<and>
   map r_liters
     (getRefills
        (snd (createRefill test_validDate ''2024-01-16T08:00:00.000Z''
           \<lparr>ri_amountSpent = 50, ri_distanceTraveled = 10, ri_liters = Some 40,
            ri_date = ''2024-01-15T10:00:00.000Z'', ri_notes = None\<rparr> emptyDb))) = [None]"
  by (simp add: createRefill_ok next_rowid_def emptyDb_def or_null_def getRefillById_def
      select_refill_def getRefills_def mapRowToRefill_def)

section \<open>Empty strings in optional text fields\<close>

text \<open>
  C6, as the claim states it, fails: an expense created with the description
  \<open>Original\<close> and then updated with \<open>{description: ''}\<close> is read back without a
  description, not with the empty one.
\<close>

theorem update_empty_text_counterexample:
  "map_option e_description
     (getExpenseById 1
        (snd (updateExpense test_validDate ''2024-01-17T09:00:00.000Z'' 1
           \<lparr>eu_type = None, eu_amount = None, eu_date = None, eu_description = Some ''''\<rparr>
           (snd (createExpense test_validDate ''2024-01-16T08:00:00.000Z''
              \<lparr>ei_type = ''Fuel'', ei_amount = 50, ei_date = ''2024-01-15T10:00:00.000Z'',
               ei_description = Some ''Original''\<rparr> emptyDb))))) \<noteq> Some (Some '''')"
proof -
  have nb: "\<not> trim_is_empty ''Fuel''"
    by (simp add: trim_is_empty.simps leading_whitespace_def js_whitespace_def)
  show ?thesis
    using nb
    by (simp add: createExpense_ok next_rowid_def emptyDb_def or_null_def getExpenseById_def
        select_expense_def mapRowToExpense_def updateExpense_def update_expenses_def
        expense_assignments_def)
qed

text \<open>
  C6, amended. An update that supplies an optional text field (description of an
  expense, purpose or notes of a trip, notes of a refill) as the empty string clears the
  field: the column is set to NULL and the entity returned and read back has no such
  property. Create treats the empty string the same way: it stores NULL, as it does for
  an absent field.
\<close>

theorem update_empty_text_clears:
  "(eu_description eu = Some [] \<and> updateExpense vd now i eu d = (Inr e', de) \<longrightarrow>
      e_description e' = None \<and> getExpenseById i de = Some e' \<and>
      map_option er_description (select_expense i de) = Some None) \<and>
   (tu_purpose tu = Some [] \<and> updateTrip vd now i tu d = (Inr t', dt) \<longrightarrow>
      t_purpose t' = None \<and> getTripById i dt = Some t' \<and>
      map_option tr_purpose (select_trip i dt) = Some None) \<and>
   (tu_notes tu = Some [] \<and> updateTrip vd now i tu d = (Inr t', dt) \<longrightarrow>
      t_notes t' = None \<and> getTripById i dt = Some t' \<and>
      map_option tr_notes (select_trip i dt) = Some None) \<and>
   (ru_notes ru = Some [] \<and> updateRefill vd now i ru d = (Inr r', dr) \<longrightarrow>
      r_notes r' = None \<and> getRefillById i dr = Some r' \<and>
      map_option rr_notes (select_refill i dr) = Some None) \<and>
   createExpense vd now (ex\<lparr>ei_description := Some []\<rparr>) d =
     createExpense vd now (ex\<lparr>ei_description := None\<rparr>) d \<and>
   createTrip vd now (tx\<lparr>ti_purpose := Some [], ti_notes := Some []\<rparr>) d =
     createTrip vd now (tx\<lparr>ti_purpose := None, ti_notes := None\<rparr>) d \<and>
   createRefill vd now (rx\<lparr>ri_notes := Some []\<rparr>) d =
     createRefill vd now (rx\<lparr>ri_notes := None\<rparr>) d"
proof (intro conjI impI)
  assume h: "eu_description eu = Some [] \<and> updateExpense vd now i eu d = (Inr e', de)"
  then obtain row where
    "e' = mapRowToExpense (fold assign_expense (expense_assignments now eu) row)"
    "select_expense i de = Some (fold assign_expense (expense_assignments now eu) row)"
    using updateExpense_Inr [of vd now i eu d e' de] by blast
  with h show "e_description e' = None" "getExpenseById i de = Some e'"
    "map_option er_description (select_expense i de) = Some None"
    by (simp_all add: fold_expense_assignments mapRowToExpense_def or_null_def
        getExpenseById_def)
next
  assume h: "tu_purpose tu = Some [] \<and> updateTrip vd now i tu d = (Inr t', dt)"
  then obtain row where
    "t' = mapRowToTrip (fold assign_trip (trip_assignments now tu) row)"
    "select_trip i dt = Some (fold assign_trip (trip_assignments now tu) row)"
    using updateTrip_Inr [of vd now i tu d t' dt] by blast
  with h show "t_purpose t' = None" "getTripById i dt = Some t'"
    "map_option tr_purpose (select_trip i dt) = Some None"
    by (simp_all add: fold_trip_assignments mapRowToTrip_def or_null_def getTripById_def)
next
  assume h: "tu_notes tu = Some [] \<and> updateTrip vd now i tu d = (Inr t', dt)"
  then obtain row where
    "t' = mapRowToTrip (fold assign_trip (trip_assignments now tu) row)"
    "select_trip i dt = Some (fold assign_trip (trip_assignments now tu) row)"
    using updateTrip_Inr [of vd now i tu d t' dt] by blast
  with h show "t_notes t' = None" "getTripById i dt = Some t'"
    "map_option tr_notes (select_trip i dt) = Some None"
    by (simp_all add: fold_trip_assignments mapRowToTrip_def or_null_def getTripById_def)
next
  assume h: "ru_notes ru = Some [] \<and> updateRefill vd now i ru d = (Inr r', dr)"
  then obtain row eff where
    "r' = mapRowToRefill (fold assign_refill (refill_assignments now ru eff) row)"
    "select_refill i dr = Some (fold assign_refill (refill_assignments now ru eff) row)"
    using updateRefill_Inr [of vd now i ru d r' dr] by blast
  with h show "r_notes r' = None" "getRefillById i dr = Some r'"
    "map_option rr_notes (select_refill i dr) = Some None"
    by (simp_all add: fold_refill_assignments mapRowToRefill_def or_null_def getRefillById_def)
next
  show "createExpense vd now (ex\<lparr>ei_description := Some []\<rparr>) d =
     createExpense vd now (ex\<lparr>ei_description := None\<rparr>) d"
    by (simp add: createExpense_def or_null_def)
next
  show "createTrip vd now (tx\<lparr>ti_purpose := Some [], ti_notes := Some []\<rparr>) d =
     createTrip vd now (tx\<lparr>ti_purpose := None, ti_notes := None\<rparr>) d"
    by (simp add: createTrip_def or_null_def)
next
  show "createRefill vd now (rx\<lparr>ri_notes := Some []\<rparr>) d =
     createRefill vd now (rx\<lparr>ri_notes := None\<rparr>) d"
    by (simp add: createRefill_def or_null_def split: sum.split)
qed

lemma Fuel_not_blank: "\<not> trim_is_empty ''Fuel''"
  by (simp add: trim_is_empty.simps leading_whitespace_def js_whitespace_def)

lemma test_history_store: "run test_validDate test_history emptyDb = test_db"
  using Fuel_not_blank
  by (simp add: run_def createExpense_ok createRefill_ok createTrip_ok next_rowid_def
      emptyDb_def or_null_def)

lemma test_update_expense:
  "updateExpense test_validDate ''2024-01-17T09:00:00.000Z'' 1
     \<lparr>eu_type = None, eu_amount = None, eu_date = None, eu_description = Some ''''\<rparr> test_db =
   (Inr \<lparr>e_id = 1, e_type = ''Fuel'', e_amount = 50, e_date = ''2024-01-15T10:00:00.000Z'',
         e_description = None, e_createdAt = ''2024-01-16T08:00:00.000Z'',
         e_updatedAt = ''2024-01-17T09:00:00.000Z''\<rparr>,
    test_db\<lparr>expenses :=
       [\<lparr>er_id = 1, er_type = ''Fuel'', er_amount = 50, er_date = ''2024-01-15T10:00:00.000Z'',
         er_description = None, er_created_at = ''2024-01-16T08:00:00.000Z'',
         er_updated_at = ''2024-01-17T09:00:00.000Z''\<rparr>]\<rparr>)"
  by (simp add: updateExpense_def getExpenseById_def select_expense_def update_expenses_def
      expense_assignments_def mapRowToExpense_def or_null_def)

lemma test_update_trip:
  "updateTrip test_validDate ''2024-01-17T09:00:00.000Z'' 1
     \<lparr>tu_distance = None, tu_date = None, tu_purpose = Some '''', tu_notes = Some ''''\<rparr> test_db =
   (Inr \<lparr>t_id = 1, t_distance = 45.5, t_date = ''2024-01-15T10:00:00.000Z'',
         t_purpose = None, t_notes = None, t_createdAt = ''2024-01-16T08:00:02.000Z'',
         t_updatedAt = ''2024-01-17T09:00:00.000Z''\<rparr>,
    test_db\<lparr>trips :=
       [\<lparr>tr_id = 1, tr_distance = 45.5, tr_date = ''2024-01-15T10:00:00.000Z'',
         tr_purpose = None, tr_notes = None, tr_created_at = ''2024-01-16T08:00:02.000Z'',
         tr_updated_at = ''2024-01-17T09:00:00.000Z''\<rparr>]\<rparr>)"
  by (simp add: updateTrip_def getTripById_def select_trip_def update_trips_def
      trip_assignments_def mapRowToTrip_def or_null_def)

lemma test_update_refill:
  "updateRefill test_validDate ''2024-01-17T09:00:00.000Z'' 1
     \<lparr>ru_amountSpent = None, ru_distanceTraveled = None, ru_liters = None, ru_date = None,
      ru_notes = Some ''''\<rparr> test_db =
   (Inr \<lparr>r_id = 1, r_amountSpent = 50, r_distanceTraveled = 10, r_liters = None,
         r_date = ''2024-01-10T10:00:00.000Z'', r_notes = None, r_efficiency = Some 5,
         r_createdAt = ''2024-01-16T08:00:01.000Z'',
         r_updatedAt = ''2024-01-17T09:00:00.000Z''\<rparr>,
    test_db\<lparr>refills :=
       [\<lparr>rr_id = 1, rr_amount_spent = 50, rr_liters = None, rr_distance_traveled = 10,
         rr_date = ''2024-01-10T10:00:00.000Z'', rr_notes = None, rr_efficiency = Some 5,
         rr_created_at = ''2024-01-16T08:00:01.000Z'',
         rr_updated_at = ''2024-01-17T09:00:00.000Z''\<rparr>]\<rparr>)"
  by (simp add: updateRefill_def getRefillById_def select_refill_def update_refills_def
      refill_assignments_def mapRowToRefill_def or_null_def calculateEfficiency_def)

theorem update_empty_text_clears_witness:
  "map_option e_description
     (getExpenseById 1
        (snd (updateExpense test_validDate ''2024-01-17T09:00:00.000Z'' 1
           \<lparr>eu_type = None, eu_amount = None, eu_date = None, eu_description = Some ''''\<rparr>
           test_db))) = Some None \<and>
   map_option t_purpose
     (getTripById 1
        (snd (updateTrip test_validDate ''2024-01-17T09:00:00.000Z'' 1
           \<lparr>tu_distance = None, tu_date = None, tu_purpose = Some '''', tu_notes = Some ''''\<rparr>
           test_db))) = Some None \<and>
   map_option t_notes
     (getTripById 1
        (snd (updateTrip test_validDate ''2024-01-17T09:00:00.000Z'' 1
           \<lparr>tu_distance = None, tu_date = None, tu_purpose = Some '''', tu_notes = Some ''''\<rparr>
           test_db))) = Some None \<and>
   map_option r_notes
     (getRefillById 1
        (snd (updateRefill test_validDate ''2024-01-17T09:00:00.000Z'' 1
           \<lparr>ru_amountSpent = None, ru_distanceTraveled = None, ru_liters = None,
            ru_date = None, ru_notes = Some ''''\<rparr> test_db))) = Some None"
proof -
  let ?now = "''2024-01-17T09:00:00.000Z''"
  let ?eu = "\<lparr>eu_type = None, eu_amount = None, eu_date = None, eu_description = Some ''''\<rparr>"
  let ?tu = "\<lparr>tu_distance = None, tu_date = None, tu_purpose = Some '''', tu_notes = Some ''''\<rparr>"
  let ?ru = "\<lparr>ru_amountSpent = None, ru_distanceTraveled = None, ru_liters = None,
            ru_date = None, ru_notes = Some ''''\<rparr>"
  let ?e = "projr (fst (updateExpense test_validDate ?now 1 ?eu test_db))"
  let ?de = "snd (updateExpense test_validDate ?now 1 ?eu test_db)"
  let ?t = "projr (fst (updateTrip test_validDate ?now 1 ?tu test_db))"
  let ?dt = "snd (updateTrip test_validDate ?now 1 ?tu test_db)"
  let ?r = "projr (fst (updateRefill test_validDate ?now 1 ?ru test_db))"
  let ?dr = "snd (updateRefill test_validDate ?now 1 ?ru test_db)"
  have e: "eu_description ?eu = Some [] \<and>
      updateExpense test_validDate ?now 1 ?eu test_db = (Inr ?e, ?de)"
    by (simp only: test_update_expense) simp
  have t: "tu_purpose ?tu = Some [] \<and> updateTrip test_validDate ?now 1 ?tu test_db = (Inr ?t, ?dt)"
    by (simp only: test_update_trip) simp
  have n: "tu_notes ?tu = Some [] \<and> updateTrip test_validDate ?now 1 ?tu test_db = (Inr ?t, ?dt)"
    by (simp only: test_update_trip) simp
  have r: "ru_notes ?ru = Some [] \<and>
      updateRefill test_validDate ?now 1 ?ru test_db = (Inr ?r, ?dr)"
    by (simp only: test_update_refill) simp
  have all: "(e_description ?e = None \<and> getExpenseById 1 ?de = Some ?e) \<and>
      (t_purpose ?t = None \<and> getTripById 1 ?dt = Some ?t) \<and>
      (t_notes ?t = None \<and> getTripById 1 ?dt = Some ?t) \<and>
      (r_notes ?r = None \<and> getRefillById 1 ?dr = Some ?r)"
    using e t n r
      update_empty_text_clears
        [of ?eu test_validDate ?now 1 test_db ?e ?de ?tu ?t ?dt ?ru ?r ?dr]
    by blast
  then show ?thesis by simp
qed

section \<open>Session creation\<close>

text \<open>
  A string that is not digits followed by one of s, m, h, d makes
  \<open>parseExpirationToSeconds\<close> answer 24 hours.
\<close>

lemma parseExpirationToSeconds_fallback:
  assumes "\<not> (\<exists>digits unit. v = digits @ [unit] \<and> digits \<noteq> [] \<and> list_all is_digit digits \<and>
             unit \<in> set ''smhd'')"
  shows "parseExpirationToSeconds v = 60 * 60 * 24"
proof (cases "v = []")
  case True
  then show ?thesis by (simp add: parseExpirationToSeconds_def)
next
  case False
  then have "v = butlast v @ [last v]" by simp
  with assms have "butlast v = [] \<or> \<not> list_all is_digit (butlast v) \<or> last v \<notin> set ''smhd''"
    by blast
  then show ?thesis
    by (auto simp: parseExpirationToSeconds_def)
qed

text \<open>
  C4. \<open>createSession\<close> should issue a token whose expiry comes from the configured
  duration, 24 hours when none is configured, and fall back to 24 hours on a duration of
  an unrecognized format instead of failing. It has the default but not the fallback. It
  hands the configured string to \<open>jwt.sign\<close> as it is: with \<open>JWT_EXPIRES_IN\<close> set to
  \<open>soon\<close> the library throws, \<open>createSession\<close> throws with it and a login with the right
  password is answered with status 500 and no cookie. The login route's
  \<open>parseExpirationToSeconds\<close> does fall back to 24 hours on the same string, but is only
  reached once the token exists. With \<open>24h\<close> configured the same login succeeds.
\<close>

theorem createSession_unrecognized_duration_fails:
  "getJwtExpiresIn (test_env\<lparr>JWT_EXPIRES_IN := None\<rparr>) = ''24h'' \<and>
   getJwtExpiresIn (test_env\<lparr>JWT_EXPIRES_IN := Some ''soon''\<rparr>) = ''soon'' \<and>
   createSession test_jwtSign (test_env\<lparr>JWT_EXPIRES_IN := Some ''soon''\<rparr>)
     ''2024-01-15T10:00:00.000Z'' =
     Inl (Error ([CHR 0x22] @ ''expiresIn'' @ [CHR 0x22] @
            '' should be a number of seconds or string representing a timespan'')) \<and>
   login_POST test_jwtSign (test_env\<lparr>JWT_EXPIRES_IN := Some ''soon''\<rparr>)
     ''2024-01-15T10:00:00.000Z'' (Some ''test-password-123'') = (500, None) \<and>
   parseExpirationToSeconds ''soon'' = 60 * 60 * 24 \<and>
   createSession test_jwtSign test_env ''2024-01-15T10:00:00.000Z'' =
     Inr ''token-of-test-secret-key'' \<and>
   login_POST test_jwtSign test_env ''2024-01-15T10:00:00.000Z'' (Some ''test-password-123'') =
     (200, Some (''token-of-test-secret-key'', 60 * 60 * 24))"
  by (simp add: createSession_def getJwtSecret_def getJwtExpiresIn_def login_POST_def
      verifyPassword_def parseExpirationToSeconds_def is_digit_def parseInt10_def)

theorem createSession_unrecognized_duration_fails_witness:
  "fst (login_POST test_jwtSign (test_env\<lparr>JWT_EXPIRES_IN := Some ''soon''\<rparr>)
          ''2024-01-15T10:00:00.000Z'' (Some ''test-password-123'')) = 500 \<and>
   parseExpirationToSeconds ''soon'' = 86400 \<and>
   fst (login_POST test_jwtSign test_env ''2024-01-15T10:00:00.000Z''
          (Some ''test-password-123'')) = 200"
  using createSession_unrecognized_duration_fails by simp

section \<open>Mileage over time\<close>

lemma mileage_loop_result: "mileage_loop c res rows = res @ mileage_loop c [] rows"
proof (induction rows arbitrary: c res)
  case Nil
  show ?case by simp
next
  case (Cons row rows)
  have "mileage_loop c res (row # rows) =
      (res @ [\<lparr>p_date = fst row, p_cumulativeDistance = c + snd row\<rparr>]) @
        mileage_loop (c + snd row) [] rows"
    using Cons.IH [of "c + snd row" "res @ [\<lparr>p_date = fst row, p_cumulativeDistance = c + snd row\<rparr>]"]
    by simp
  moreover have "mileage_loop c [] (row # rows) =
      [\<lparr>p_date = fst row, p_cumulativeDistance = c + snd row\<rparr>] @
        mileage_loop (c + snd row) [] rows"
    using Cons.IH [of "c + snd row" "[\<lparr>p_date = fst row, p_cumulativeDistance = c + snd row\<rparr>]"]
    by simp
  ultimately show ?case by simp
qed

lemma mileage_loop_Cons:
  "mileage_loop c [] (row # rows) =
     \<lparr>p_date = fst row, p_cumulativeDistance = c + snd row\<rparr> # mileage_loop (c + snd row) [] rows"
  using mileage_loop_result
    [of "c + snd row" "[\<lparr>p_date = fst row, p_cumulativeDistance = c + snd row\<rparr>]" rows]
  by simp

lemma mileage_loop_length: "length (mileage_loop c [] rows) = length rows"
  by (induction rows arbitrary: c) (simp_all add: mileage_loop_Cons del: mileage_loop.simps(2))

lemma mileage_loop_dates: "map p_date (mileage_loop c [] rows) = map fst rows"
  by (induction rows arbitrary: c) (simp_all add: mileage_loop_Cons del: mileage_loop.simps(2))

lemma mileage_loop_nth:
  "k < length rows \<Longrightarrow>
   p_cumulativeDistance (mileage_loop c [] rows ! k) = c + sum_list (map snd (take (Suc k) rows))"
proof (induction rows arbitrary: c k)
  case Nil
  then show ?case by simp
next
  case (Cons row rows)
  show ?case
  proof (cases k)
    case 0
    then show ?thesis by (simp add: mileage_loop_Cons del: mileage_loop.simps(2))
  next
    case (Suc j)
    then have "j < length rows" using Cons.prems by simp
    then have "p_cumulativeDistance (mileage_loop (c + snd row) [] rows ! j) =
        c + snd row + sum_list (map snd (take (Suc j) rows))"
      by (rule Cons.IH)
    then show ?thesis by (simp add: Suc mileage_loop_Cons del: mileage_loop.simps(2))
  qed
qed

lemma mileage_loop_last:
  assumes "rows \<noteq> []"
  shows "p_cumulativeDistance (last (mileage_loop c [] rows)) = c + sum_list (map snd rows)"
proof -
  have ne: "mileage_loop c [] rows \<noteq> []"
    using assms mileage_loop_length [of c rows] by (metis length_0_conv)
  have "last (mileage_loop c [] rows) = mileage_loop c [] rows ! (length rows - 1)"
    using ne by (simp add: last_conv_nth mileage_loop_length)
  moreover have "length rows - 1 < length rows"
    using assms by simp
  ultimately show ?thesis
    using assms by (simp add: mileage_loop_nth)
qed

lemma mileage_rows_mset:
  "mset (mileage_rows d) =
     mset (map (\<lambda>row. (tr_date row, tr_distance row)) (trips d)) +
     mset (map (\<lambda>row. (rr_date row, rr_distance_traveled row)) (refills d))"
  by (simp add: mileage_rows_def)

lemma sum_list_mset_cong:
  assumes "mset xs = mset ys"
  shows "sum_list (map f xs) = (sum_list (map f ys) :: real)"
proof -
  have "mset (map f xs) = mset (map f ys)"
    using assms by (metis mset_map)
  then show ?thesis
    by (metis sum_mset_sum_list)
qed

lemma mileage_rows_total:
  "sum_list (map snd (mileage_rows d)) =
     sum_list (map tr_distance (trips d)) + sum_list (map rr_distance_traveled (refills d))"
proof -
  let ?pairs = "map (\<lambda>row. (tr_date row, tr_distance row)) (trips d) @
      map (\<lambda>row. (rr_date row, rr_distance_traveled row)) (refills d)"
  have "mset (mileage_rows d) = mset ?pairs"
    by (simp add: mileage_rows_def)
  then have "sum_list (map snd (mileage_rows d)) = sum_list (map snd ?pairs)"
    by (rule sum_list_mset_cong)
  then show ?thesis
    by (simp add: comp_def)
qed

text \<open>
  What holds of \<open>getMileageOverTime\<close> in the order of the stored date strings and with
  exact sums: it works on the (date, distance) pairs of all trips and all refills, sorted
  as strings, and returns one point per pair, in that order, with the sum of the
  distances up to and including it.
\<close>

lemma getMileageOverTime_in_text_order:
  "mset (mileage_rows d) =
     mset (map (\<lambda>row. (tr_date row, tr_distance row)) (trips d)) +
     mset (map (\<lambda>row. (rr_date row, rr_distance_traveled row)) (refills d)) \<and>
   sorted (map fst (mileage_rows d)) \<and>
   map p_date (getMileageOverTime d) = map fst (mileage_rows d) \<and>
   (\<forall>k < length (getMileageOverTime d).
      p_cumulativeDistance (getMileageOverTime d ! k) =
        sum_list (map snd (take (Suc k) (mileage_rows d)))) \<and>
   length (getMileageOverTime d) = length (trips d) + length (refills d) \<and>
   (getMileageOverTime d \<noteq> [] \<longrightarrow>
      p_cumulativeDistance (last (getMileageOverTime d)) =
        sum_list (map tr_distance (trips d)) + sum_list (map rr_distance_traveled (refills d))) \<and>
   (trips d = [] \<and> refills d = [] \<longrightarrow> getMileageOverTime d = [])"
proof (intro conjI allI impI)
  show "mset (mileage_rows d) =
     mset (map (\<lambda>row. (tr_date row, tr_distance row)) (trips d)) +
     mset (map (\<lambda>row. (rr_date row, rr_distance_traveled row)) (refills d))"
    by (rule mileage_rows_mset)
next
  show "sorted (map fst (mileage_rows d))"
    by (simp add: mileage_rows_def sorted_sort_key)
next
  show "map p_date (getMileageOverTime d) = map fst (mileage_rows d)"
    by (simp add: getMileageOverTime_def mileage_loop_dates)
next
  fix k
  assume "k < length (getMileageOverTime d)"
  then have "k < length (mileage_rows d)"
    by (simp add: getMileageOverTime_def mileage_loop_length)
  then show "p_cumulativeDistance (getMileageOverTime d ! k) =
        sum_list (map snd (take (Suc k) (mileage_rows d)))"
    by (simp add: getMileageOverTime_def mileage_loop_nth)
next
  have "length (mileage_rows d) = length (trips d) + length (refills d)"
    by (simp add: mileage_rows_def)
  then show "length (getMileageOverTime d) = length (trips d) + length (refills d)"
    by (simp add: getMileageOverTime_def mileage_loop_length)
next
  assume "getMileageOverTime d \<noteq> []"
  then have "mileage_rows d \<noteq> []"
    by (auto simp: getMileageOverTime_def)
  then have "p_cumulativeDistance (last (getMileageOverTime d)) =
      sum_list (map snd (mileage_rows d))"
    by (simp add: getMileageOverTime_def mileage_loop_last)
  then show "p_cumulativeDistance (last (getMileageOverTime d)) =
        sum_list (map tr_distance (trips d)) + sum_list (map rr_distance_traveled (refills d))"
    by (simp add: mileage_rows_total)
next
  assume "trips d = [] \<and> refills d = []"
  then show "getMileageOverTime d = []"
    by (simp add: getMileageOverTime_def mileage_rows_def)
qed

text \<open>
  C2. \<open>getMileageOverTime\<close> should return the points of all trips and refills in
  ascending order of date, each with the distance accumulated up to it. It orders them
  by the stored date string instead, and the services store any string the runtime's
  date parser accepts. A trip of distance 10 dated \<open>Dec 1, 2020\<close> and a refill of distance
  5 dated \<open>2024-01-01T00:00:00.000Z\<close> come out with the refill of 2024 first, at 5, and the
  trip of 2020 second, at 15, where the order of the dates gives the trip at 10 and then
  the refill at 15.
\<close>

theorem getMileageOverTime_out_of_date_order:
  "getMileageOverTime
     (run (\<lambda>s. test_getTime s \<noteq> None)
        [CreateTrip ''2024-02-01T08:00:00.000Z''
           \<lparr>ti_distance = 10, ti_date = ''Dec 1, 2020'', ti_purpose = None, ti_notes = None\<rparr>,
         CreateRefill ''2024-02-01T08:00:01.000Z''
           \<lparr>ri_amountSpent = 50, ri_distanceTraveled = 5, ri_liters = None,
            ri_date = ''2024-01-01T00:00:00.000Z'', ri_notes = None\<rparr>]
        emptyDb) =
     [\<lparr>p_date = ''2024-01-01T00:00:00.000Z'', p_cumulativeDistance = 5\<rparr>,
      \<lparr>p_date = ''Dec 1, 2020'', p_cumulativeDistance = 15\<rparr>] \<and>
   test_getTime ''2024-01-01T00:00:00.000Z'' = Some 1704067200000 \<and>
   test_getTime ''Dec 1, 2020'' = Some 1606780800000 \<and>
   (1606780800000 :: int) < 1704067200000"
  by (simp add: run_def createTrip_ok createRefill_ok next_rowid_def emptyDb_def or_null_def
      getMileageOverTime_def mileage_rows_def)

section \<open>Listing in date order\<close>

text \<open>
  Sorting a table whose rowids grow by a stable sort on \<open>f\<close> orders it by \<open>f\<close> first and
  by rowid among equal values of \<open>f\<close>.
\<close>

lemma insort_key_by_rowid:
  fixes f :: "'a \<Rightarrow> 'b::linorder" and key :: "'a \<Rightarrow> int"
  assumes "sorted_wrt (\<lambda>a b. f a < f b \<or> (f a = f b \<and> key a < key b)) xs"
    and "\<forall>y \<in> set xs. key x < key y"
  shows "sorted_wrt (\<lambda>a b. f a < f b \<or> (f a = f b \<and> key a < key b)) (insort_key f x xs)"
  using assms
proof (induction xs)
  case Nil
  then show ?case by simp
next
  case (Cons y ys)
  show ?case
  proof (cases "f x \<le> f y")
    case True
    have "f x < f z \<or> (f x = f z \<and> key x < key z)" if "z \<in> set (y # ys)" for z
    proof -
      have "f y \<le> f z"
        using Cons.prems(1) that by auto
      with True have "f x \<le> f z" by simp
      moreover have "key x < key z"
        using Cons.prems(2) that by auto
      ultimately show ?thesis by auto
    qed
    with True Cons.prems(1) show ?thesis by simp
  next
    case False
    have "sorted_wrt (\<lambda>a b. f a < f b \<or> (f a = f b \<and> key a < key b)) (insort_key f x ys)"
      using Cons.IH Cons.prems by simp
    moreover have "f y < f z \<or> (f y = f z \<and> key y < key z)"
      if "z \<in> set (insort_key f x ys)" for z
      using that False Cons.prems(1) by (auto simp: set_insort_key)
    ultimately show ?thesis
      using False by simp
  qed
qed

lemma sort_key_by_rowid:
  fixes f :: "'a \<Rightarrow> 'b::linorder" and key :: "'a \<Rightarrow> int"
  assumes "sorted_wrt (<) (map key xs)"
  shows "sorted_wrt (\<lambda>a b. f a < f b \<or> (f a = f b \<and> key a < key b)) (sort_key f xs)"
  using assms
proof (induction xs)
  case Nil
  then show ?case by simp
next
  case (Cons x xs)
  have "sorted_wrt (\<lambda>a b. f a < f b \<or> (f a = f b \<and> key a < key b)) (sort_key f xs)"
    using Cons by simp
  moreover have "\<forall>y \<in> set (sort_key f xs). key x < key y"
    using Cons.prems by simp
  ultimately show ?case
    by (simp add: insort_key_by_rowid)
qed

lemma ties_by_rowid:
  fixes f :: "'a \<Rightarrow> 'b::linorder" and key :: "'a \<Rightarrow> int"
  assumes "sorted_wrt (<) (map key xs)" and "k < l" and "l < length xs"
    and "f (sort_key f xs ! k) = f (sort_key f xs ! l)"
  shows "key (sort_key f xs ! k) < key (sort_key f xs ! l)"
proof -
  have "sorted_wrt (\<lambda>a b. f a < f b \<or> (f a = f b \<and> key a < key b)) (sort_key f xs)"
    using assms(1) by (rule sort_key_by_rowid)
  moreover have "l < length (sort_key f xs)"
    using assms(3) by simp
  ultimately have "f (sort_key f xs ! k) < f (sort_key f xs ! l) \<or>
      (f (sort_key f xs ! k) = f (sort_key f xs ! l) \<and>
       key (sort_key f xs ! k) < key (sort_key f xs ! l))"
    using assms(2) sorted_wrt_nth_less by blast
  with assms(4) show ?thesis by simp
qed

lemma getExpenses_dates: "map e_date (getExpenses d) = map er_date (sort_key er_date (expenses d))"
  by (simp add: getExpenses_def mapRowToExpense_def comp_def)

lemma getRefills_dates: "map r_date (getRefills d) = map rr_date (sort_key rr_date (refills d))"
  by (simp add: getRefills_def mapRowToRefill_def comp_def)

lemma getTrips_dates: "map t_date (getTrips d) = map tr_date (sort_key tr_date (trips d))"
  by (simp add: getTrips_def mapRowToTrip_def comp_def)

lemma getExpenses_ties:
  assumes "keys_ok d" and "k < l" and "l < length (getExpenses d)"
    and "e_date (getExpenses d ! k) = e_date (getExpenses d ! l)"
  shows "e_id (getExpenses d ! k) < e_id (getExpenses d ! l)"
proof -
  have len: "l < length (expenses d)" "k < length (sort_key er_date (expenses d))"
    "l < length (sort_key er_date (expenses d))"
    using assms(2,3) by (simp_all add: getExpenses_def)
  have "er_date (sort_key er_date (expenses d) ! k) = er_date (sort_key er_date (expenses d) ! l)"
    using assms(4) len by (simp add: getExpenses_def mapRowToExpense_def)
  moreover have "sorted_wrt (<) (map er_id (expenses d))"
    using assms(1) by (simp add: keys_ok_def rowids_ok_def)
  ultimately have "er_id (sort_key er_date (expenses d) ! k) < er_id (sort_key er_date (expenses d) ! l)"
    using assms(2) len(1) ties_by_rowid [of er_id "expenses d" k l er_date] by simp
  then show ?thesis
    using len by (simp add: getExpenses_def mapRowToExpense_def)
qed

lemma getRefills_ties:
  assumes "keys_ok d" and "k < l" and "l < length (getRefills d)"
    and "r_date (getRefills d ! k) = r_date (getRefills d ! l)"
  shows "r_id (getRefills d ! k) < r_id (getRefills d ! l)"
proof -
  have len: "l < length (refills d)" "k < length (sort_key rr_date (refills d))"
    "l < length (sort_key rr_date (refills d))"
    using assms(2,3) by (simp_all add: getRefills_def)
  have "rr_date (sort_key rr_date (refills d) ! k) = rr_date (sort_key rr_date (refills d) ! l)"
    using assms(4) len by (simp add: getRefills_def mapRowToRefill_def)
  moreover have "sorted_wrt (<) (map rr_id (refills d))"
    using assms(1) by (simp add: keys_ok_def rowids_ok_def)
  ultimately have "rr_id (sort_key rr_date (refills d) ! k) < rr_id (sort_key rr_date (refills d) ! l)"
    using assms(2) len(1) ties_by_rowid [of rr_id "refills d" k l rr_date] by simp
  then show ?thesis
    using len by (simp add: getRefills_def mapRowToRefill_def)
qed

lemma getTrips_ties:
  assumes "keys_ok d" and "k < l" and "l < length (getTrips d)"
    and "t_date (getTrips d ! k) = t_date (getTrips d ! l)"
  shows "t_id (getTrips d ! k) < t_id (getTrips d ! l)"
proof -
  have len: "l < length (trips d)" "k < length (sort_key tr_date (trips d))"
    "l < length (sort_key tr_date (trips d))"
    using assms(2,3) by (simp_all add: getTrips_def)
  have "tr_date (sort_key tr_date (trips d) ! k) = tr_date (sort_key tr_date (trips d) ! l)"
    using assms(4) len by (simp add: getTrips_def mapRowToTrip_def)
  moreover have "sorted_wrt (<) (map tr_id (trips d))"
    using assms(1) by (simp add: keys_ok_def rowids_ok_def)
  ultimately have "tr_id (sort_key tr_date (trips d) ! k) < tr_id (sort_key tr_date (trips d) ! l)"
    using assms(2) len(1) ties_by_rowid [of tr_id "trips d" k l tr_date] by simp
  then show ?thesis
    using len by (simp add: getTrips_def mapRowToTrip_def)
qed

text \<open>
  What holds of the list functions in the order of the stored date strings: in every
  store a history of service calls leaves they return all rows sorted on the date
  string, rows with equal strings in ascending rowid order.
\<close>

lemma lists_in_text_order:
  assumes "d = run validDate ops emptyDb"
  shows "sorted (map e_date (getExpenses d)) \<and>
         mset (getExpenses d) = mset (map mapRowToExpense (expenses d)) \<and>
         (\<forall>k l. k < l \<and> l < length (getExpenses d) \<and>
            e_date (getExpenses d ! k) = e_date (getExpenses d ! l) \<longrightarrow>
            e_id (getExpenses d ! k) < e_id (getExpenses d ! l)) \<and>
         sorted (map r_date (getRefills d)) \<and>
         mset (getRefills d) = mset (map mapRowToRefill (refills d)) \<and>
         (\<forall>k l. k < l \<and> l < length (getRefills d) \<and>
            r_date (getRefills d ! k) = r_date (getRefills d ! l) \<longrightarrow>
            r_id (getRefills d ! k) < r_id (getRefills d ! l)) \<and>
         sorted (map t_date (getTrips d)) \<and>
         mset (getTrips d) = mset (map mapRowToTrip (trips d)) \<and>
         (\<forall>k l. k < l \<and> l < length (getTrips d) \<and>
            t_date (getTrips d ! k) = t_date (getTrips d ! l) \<longrightarrow>
            t_id (getTrips d ! k) < t_id (getTrips d ! l)) \<and>
         (\<forall>now x e d'. createExpense validDate now x d = (Inr e, d') \<longrightarrow>
            (\<forall>row \<in> set (expenses d). er_id row < e_id e)) \<and>
         (\<forall>now x r d'. createRefill validDate now x d = (Inr r, d') \<longrightarrow>
            (\<forall>row \<in> set (refills d). rr_id row < r_id r)) \<and>
         (\<forall>now x t d'. createTrip validDate now x d = (Inr t, d') \<longrightarrow>
            (\<forall>row \<in> set (trips d). tr_id row < t_id t))"
proof -
  have keys: "keys_ok d"
    using assms keys_ok_empty by (simp add: run_keys_ok)
  have e1: "sorted (map e_date (getExpenses d))"
    by (simp only: getExpenses_dates sorted_sort_key)
  have e2: "mset (getExpenses d) = mset (map mapRowToExpense (expenses d))"
    by (simp add: getExpenses_def)
  have e3: "\<forall>k l. k < l \<and> l < length (getExpenses d) \<and>
            e_date (getExpenses d ! k) = e_date (getExpenses d ! l) \<longrightarrow>
            e_id (getExpenses d ! k) < e_id (getExpenses d ! l)"
    using getExpenses_ties [OF keys] by blast
  have r1: "sorted (map r_date (getRefills d))"
    by (simp only: getRefills_dates sorted_sort_key)
  have r2: "mset (getRefills d) = mset (map mapRowToRefill (refills d))"
    by (simp add: getRefills_def)
  have r3: "\<forall>k l. k < l \<and> l < length (getRefills d) \<and>
            r_date (getRefills d ! k) = r_date (getRefills d ! l) \<longrightarrow>
            r_id (getRefills d ! k) < r_id (getRefills d ! l)"
    using getRefills_ties [OF keys] by blast
  have t1: "sorted (map t_date (getTrips d))"
    by (simp only: getTrips_dates sorted_sort_key)
  have t2: "mset (getTrips d) = mset (map mapRowToTrip (trips d))"
    by (simp add: getTrips_def)
  have t3: "\<forall>k l. k < l \<and> l < length (getTrips d) \<and>
            t_date (getTrips d ! k) = t_date (getTrips d ! l) \<longrightarrow>
            t_id (getTrips d ! k) < t_id (getTrips d ! l)"
    using getTrips_ties [OF keys] by blast
  have e4: "\<forall>now x e d'. createExpense validDate now x d = (Inr e, d') \<longrightarrow>
            (\<forall>row \<in> set (expenses d). er_id row < e_id e)"
  proof (intro allI impI ballI)
    fix now x e d' row
    assume c: "createExpense validDate now x d = (Inr e, d')" and m: "row \<in> set (expenses d)"
    from c have ok: "\<not> trim_is_empty (ei_type x)" "0 < ei_amount x" "ei_date x \<noteq> []"
      "validDate (ei_date x)"
      by (auto simp: createExpense_def split: if_splits)
    from c have "e_id e = next_rowid (expenses_seq d) (map er_id (expenses d))"
      using createExpense_ok [of x validDate now d] ok by auto
    then show "er_id row < e_id e"
      using m next_rowid_fresh [of "er_id row" "map er_id (expenses d)" "expenses_seq d"] by simp
  qed
  have r4: "\<forall>now x r d'. createRefill validDate now x d = (Inr r, d') \<longrightarrow>
            (\<forall>row \<in> set (refills d). rr_id row < r_id r)"
  proof (intro allI impI ballI)
    fix now x r d' row
    assume c: "createRefill validDate now x d = (Inr r, d')" and m: "row \<in> set (refills d)"
    from c have ok: "0 < ri_amountSpent x" "0 < ri_distanceTraveled x" "ri_date x \<noteq> []"
      "validDate (ri_date x)"
      by (auto simp: createRefill_def split: if_splits)
    from c have "r_id r = next_rowid (refills_seq d) (map rr_id (refills d))"
      using createRefill_ok [of x validDate now d] ok by auto
    then show "rr_id row < r_id r"
      using m next_rowid_fresh [of "rr_id row" "map rr_id (refills d)" "refills_seq d"] by simp
  qed
  have t4: "\<forall>now x t d'. createTrip validDate now x d = (Inr t, d') \<longrightarrow>
            (\<forall>row \<in> set (trips d). tr_id row < t_id t)"
  proof (intro allI impI ballI)
    fix now x t d' row
    assume c: "createTrip validDate now x d = (Inr t, d')" and m: "row \<in> set (trips d)"
    from c have ok: "0 < ti_distance x" "ti_date x \<noteq> []" "validDate (ti_date x)"
      by (auto simp: createTrip_def split: if_splits)
    from c have "t_id t = next_rowid (trips_seq d) (map tr_id (trips d))"
      using createTrip_ok [of x validDate now d] ok by auto
    then show "tr_id row < t_id t"
      using m next_rowid_fresh [of "tr_id row" "map tr_id (trips d)" "trips_seq d"] by simp
  qed
  from e1 e2 e3 r1 r2 r3 t1 t2 t3 e4 r4 t4 show ?thesis by blast
qed

text \<open>
  C8. The list function of each service should return the rows in ascending order of
  date whatever the order of insertion, rows of equal dates in insertion order. The
  three of them order by the stored date string instead, and the create functions store
  any string the runtime's date parser accepts. Of two expenses, two refills and two
  trips created with the dates \<open>Dec 1, 2020\<close> and then \<open>2024-01-01T00:00:00.000Z\<close>, each
  list returns the row of 2024 before the row of 2020.
\<close>

theorem lists_out_of_date_order:
  "map (\<lambda>e. (e_id e, e_date e, test_getTime (e_date e)))
     (getExpenses
        (run (\<lambda>s. test_getTime s \<noteq> None)
           [CreateExpense ''2024-02-01T08:00:00.000Z''
              \<lparr>ei_type = ''Fuel'', ei_amount = 50, ei_date = ''Dec 1, 2020'',
               ei_description = None\<rparr>,
            CreateExpense ''2024-02-01T08:00:01.000Z''
              \<lparr>ei_type = ''Fuel'', ei_amount = 60, ei_date = ''2024-01-01T00:00:00.000Z'',
               ei_description = None\<rparr>]
           emptyDb)) =
     [(2, ''2024-01-01T00:00:00.000Z'', Some 1704067200000),
      (1, ''Dec 1, 2020'', Some 1606780800000)] \<and>
   map (\<lambda>r. (r_id r, r_date r, test_getTime (r_date r)))
     (getRefills
        (run (\<lambda>s. test_getTime s \<noteq> None)
           [CreateRefill ''2024-02-01T08:00:00.000Z''
              \<lparr>ri_amountSpent = 50, ri_distanceTraveled = 10, ri_liters = None,
               ri_date = ''Dec 1, 2020'', ri_notes = None\<rparr>,
            CreateRefill ''2024-02-01T08:00:01.000Z''
              \<lparr>ri_amountSpent = 60, ri_distanceTraveled = 12, ri_liters = None,
               ri_date = ''2024-01-01T00:00:00.000Z'', ri_notes = None\<rparr>]
           emptyDb)) =
     [(2, ''2024-01-01T00:00:00.000Z'', Some 1704067200000),
      (1, ''Dec 1, 2020'', Some 1606780800000)] \<and>
   map (\<lambda>t. (t_id t, t_date t, test_getTime (t_date t)))
     (getTrips
        (run (\<lambda>s. test_getTime s \<noteq> None)
           [CreateTrip ''2024-02-01T08:00:00.000Z''
              \<lparr>ti_distance = 10, ti_date = ''Dec 1, 2020'', ti_purpose = None,
               ti_notes = None\<rparr>,
            CreateTrip ''2024-02-01T08:00:01.000Z''
              \<lparr>ti_distance = 12, ti_date = ''2024-01-01T00:00:00.000Z'', ti_purpose = None,
               ti_notes = None\<rparr>]
           emptyDb)) =
     [(2, ''2024-01-01T00:00:00.000Z'', Some 1704067200000),
      (1, ''Dec 1, 2020'', Some 1606780800000)] \<and>
   (1606780800000 :: int) < 1704067200000"
  using Fuel_not_blank
  by (simp add: run_def createExpense_ok createRefill_ok createTrip_ok next_rowid_def
      emptyDb_def or_null_def getExpenses_def getRefills_def getTrips_def
      mapRowToExpense_def mapRowToRefill_def mapRowToTrip_def)

section \<open>The efficiency of a refill\<close>

lemma createRefill_Inr:
  assumes "createRefill vd now x d = (Inr r, d')"
  shows "r_amountSpent r = ri_amountSpent x \<and> r_distanceTraveled r = ri_distanceTraveled x \<and>
         r_efficiency r = Some (ri_amountSpent x / ri_distanceTraveled x) \<and>
         getRefillById (r_id r) d' = Some r"
proof -
  from assms have ok: "0 < ri_amountSpent x" "0 < ri_distanceTraveled x" "ri_date x \<noteq> []"
    "vd (ri_date x)"
    by (auto simp: createRefill_def split: if_splits)
  let ?k = "next_rowid (refills_seq d) (map rr_id (refills d))"
  have fresh: "\<forall>y \<in> set (refills d). rr_id y \<noteq> ?k"
    using next_rowid_fresh [of _ "map rr_id (refills d)" "refills_seq d"] by fastforce
  then have none: "find (\<lambda>y. rr_id y = ?k) (refills d) = None"
    by (simp add: find_None_iff)
  from assms createRefill_ok [of x vd now d] ok
  have r: "r = \<lparr>r_id = ?k, r_amountSpent = ri_amountSpent x,
        r_distanceTraveled = ri_distanceTraveled x, r_liters = None, r_date = ri_date x,
        r_notes = or_null (ri_notes x),
        r_efficiency = Some (ri_amountSpent x / ri_distanceTraveled x),
        r_createdAt = now, r_updatedAt = now\<rparr>"
    and d': "d' = d\<lparr>refills := refills d @
           [\<lparr>rr_id = ?k, rr_amount_spent = ri_amountSpent x, rr_liters = None,
             rr_distance_traveled = ri_distanceTraveled x, rr_date = ri_date x,
             rr_notes = or_null (ri_notes x),
             rr_efficiency = Some (ri_amountSpent x / ri_distanceTraveled x),
             rr_created_at = now, rr_updated_at = now\<rparr>],
         refills_seq := ?k\<rparr>"
    by simp_all
  have "getRefillById (r_id r) d' = Some r"
    using none by (simp add: r d' getRefillById_def select_refill_def find_snoc
        mapRowToRefill_def or_null_def split: option.split)
  then show ?thesis by (simp add: r)
qed

lemma updateRefill_recomputes:
  assumes "getRefillById i d = Some r" and "updateRefill vd now i u d = (Inr r', d')"
  shows "r_amountSpent r' = (case ru_amountSpent u of None \<Rightarrow> r_amountSpent r | Some v \<Rightarrow> v) \<and>
         r_distanceTraveled r' =
           (case ru_distanceTraveled u of None \<Rightarrow> r_distanceTraveled r | Some v \<Rightarrow> v) \<and>
         r_efficiency r' = Some (r_amountSpent r' / r_distanceTraveled r') \<and>
         getRefillById i d' = Some r'"
proof -
  from assms(2) obtain row eff where sel: "select_refill i d = Some row"
    and eff: "eff = (case ru_amountSpent u of None \<Rightarrow> rr_amount_spent row | Some v \<Rightarrow> v) /
                 (case ru_distanceTraveled u of None \<Rightarrow> rr_distance_traveled row | Some v \<Rightarrow> v)"
    and r': "r' = mapRowToRefill (fold assign_refill (refill_assignments now u eff) row)"
    and sel': "select_refill i d' = Some (fold assign_refill (refill_assignments now u eff) row)"
    using updateRefill_Inr [of vd now i u d r' d'] by blast
  from assms(1) sel have r: "r = mapRowToRefill row"
    by (simp add: getRefillById_def)
  show ?thesis
    using sel'
    by (simp add: r r' eff fold_refill_assignments mapRowToRefill_def getRefillById_def
        split: option.split)
qed

text \<open>
  C1. Every refill row of a store that a history of service calls leaves satisfies
  \<open>efficiency = amountSpent / distanceTraveled\<close> (with both inputs positive), and so does
  every entity the service reads from it. \<open>createRefill\<close> stores the quotient of its two
  inputs. \<open>updateRefill\<close> recomputes it from the values in effect after the update, the
  stored one standing in for an input the partial update omits, so the equation holds
  again after every update, also one that touches neither input.
\<close>

theorem refill_efficiency_invariant:
  "(\<forall>row \<in> set (refills (run validDate ops emptyDb)).
      0 < rr_amount_spent row \<and> 0 < rr_distance_traveled row \<and>
      rr_efficiency row = Some (rr_amount_spent row / rr_distance_traveled row)) \<and>
   (\<forall>i r. getRefillById i (run validDate ops emptyDb) = Some r \<longrightarrow>
      r_efficiency r = Some (r_amountSpent r / r_distanceTraveled r)) \<and>
   (\<forall>r \<in> set (getRefills (run validDate ops emptyDb)).
      r_efficiency r = Some (r_amountSpent r / r_distanceTraveled r)) \<and>
   (\<forall>now x d r d'. createRefill validDate now x d = (Inr r, d') \<longrightarrow>
      r_amountSpent r = ri_amountSpent x \<and> r_distanceTraveled r = ri_distanceTraveled x \<and>
      r_efficiency r = Some (ri_amountSpent x / ri_distanceTraveled x) \<and>
      getRefillById (r_id r) d' = Some r) \<and>
   (\<forall>now i u d r r' d'.
      getRefillById i d = Some r \<and> updateRefill validDate now i u d = (Inr r', d') \<longrightarrow>
      r_amountSpent r' = (case ru_amountSpent u of None \<Rightarrow> r_amountSpent r | Some v \<Rightarrow> v) \<and>
      r_distanceTraveled r' =
        (case ru_distanceTraveled u of None \<Rightarrow> r_distanceTraveled r | Some v \<Rightarrow> v) \<and>
      r_efficiency r' = Some (r_amountSpent r' / r_distanceTraveled r') \<and>
      getRefillById i d' = Some r')"
proof -
  let ?d = "run validDate ops emptyDb"
  have inv: "refills_ok ?d"
    using keys_ok_empty refills_ok_empty by (rule run_refills_ok)
  then have rows: "\<forall>row \<in> set (refills ?d).
      0 < rr_amount_spent row \<and> 0 < rr_distance_traveled row \<and>
      rr_efficiency row = Some (rr_amount_spent row / rr_distance_traveled row)"
    by (simp add: refills_ok_def list_all_iff refill_row_ok_def)
  have byid: "\<forall>i r. getRefillById i ?d = Some r \<longrightarrow>
      r_efficiency r = Some (r_amountSpent r / r_distanceTraveled r)"
  proof (intro allI impI)
    fix i r
    assume "getRefillById i ?d = Some r"
    then obtain row where "find (\<lambda>y. rr_id y = i) (refills ?d) = Some row"
      and r: "r = mapRowToRefill row"
      by (auto simp: getRefillById_def select_refill_def split: option.splits)
    then have "row \<in> set (refills ?d)"
      using find_key [of rr_id i "refills ?d" row] by simp
    with rows show "r_efficiency r = Some (r_amountSpent r / r_distanceTraveled r)"
      by (simp add: r mapRowToRefill_def)
  qed
  have listed: "\<forall>r \<in> set (getRefills ?d).
      r_efficiency r = Some (r_amountSpent r / r_distanceTraveled r)"
    using rows by (auto simp: getRefills_def mapRowToRefill_def)
  have created: "\<forall>now x d r d'. createRefill validDate now x d = (Inr r, d') \<longrightarrow>
      r_amountSpent r = ri_amountSpent x \<and> r_distanceTraveled r = ri_distanceTraveled x \<and>
      r_efficiency r = Some (ri_amountSpent x / ri_distanceTraveled x) \<and>
      getRefillById (r_id r) d' = Some r"
    using createRefill_Inr by blast
  have updated: "\<forall>now i u d r r' d'.
      getRefillById i d = Some r \<and> updateRefill validDate now i u d = (Inr r', d') \<longrightarrow>
      r_amountSpent r' = (case ru_amountSpent u of None \<Rightarrow> r_amountSpent r | Some v \<Rightarrow> v) \<and>
      r_distanceTraveled r' =
        (case ru_distanceTraveled u of None \<Rightarrow> r_distanceTraveled r | Some v \<Rightarrow> v) \<and>
      r_efficiency r' = Some (r_amountSpent r' / r_distanceTraveled r') \<and>
      getRefillById i d' = Some r'"
    using updateRefill_recomputes by blast
  from rows byid listed created updated show ?thesis by blast
qed

lemma test_refill_amount_update:
  "refills (run test_validDate
     (test_history @
      [UpdateRefill ''2024-01-17T09:00:00.000Z'' 1
         \<lparr>ru_amountSpent = Some 70, ru_distanceTraveled = None, ru_liters = None,
          ru_date = None, ru_notes = None\<rparr>]) emptyDb) =
   [\<lparr>rr_id = 1, rr_amount_spent = 70, rr_liters = None, rr_distance_traveled = 10,
     rr_date = ''2024-01-10T10:00:00.000Z'', rr_notes = Some ''First refill'',
     rr_efficiency = Some 7, rr_created_at = ''2024-01-16T08:00:01.000Z'',
     rr_updated_at = ''2024-01-17T09:00:00.000Z''\<rparr>]"
proof -
  have "run test_validDate
     (test_history @
      [UpdateRefill ''2024-01-17T09:00:00.000Z'' 1
         \<lparr>ru_amountSpent = Some 70, ru_distanceTraveled = None, ru_liters = None,
          ru_date = None, ru_notes = None\<rparr>]) emptyDb =
     perform test_validDate
       (UpdateRefill ''2024-01-17T09:00:00.000Z'' 1
         \<lparr>ru_amountSpent = Some 70, ru_distanceTraveled = None, ru_liters = None,
          ru_date = None, ru_notes = None\<rparr>)
       (run test_validDate test_history emptyDb)"
    by (simp only: run_def fold_append comp_def fold.simps id_def)
  then show ?thesis
    by (simp only: test_history_store)
      (simp add: updateRefill_def getRefillById_def select_refill_def update_refills_def
        refill_assignments_def mapRowToRefill_def or_null_def calculateEfficiency_def)
qed

theorem refill_efficiency_invariant_witness:
  "map rr_efficiency
     (refills (run test_validDate
        (test_history @
         [UpdateRefill ''2024-01-17T09:00:00.000Z'' 1
            \<lparr>ru_amountSpent = Some 70, ru_distanceTraveled = None, ru_liters = None,
             ru_date = None, ru_notes = None\<rparr>]) emptyDb)) =
   map (\<lambda>row. Some (rr_amount_spent row / rr_distance_traveled row))
     (refills (run test_validDate
        (test_history @
         [UpdateRefill ''2024-01-17T09:00:00.000Z'' 1
            \<lparr>ru_amountSpent = Some 70, ru_distanceTraveled = None, ru_liters = None,
             ru_date = None, ru_notes = None\<rparr>]) emptyDb)) \<and>
   map rr_efficiency
     (refills (run test_validDate
        (test_history @
         [UpdateRefill ''2024-01-17T09:00:00.000Z'' 1
            \<lparr>ru_amountSpent = Some 70, ru_distanceTraveled = None, ru_liters = None,
             ru_date = None, ru_notes = None\<rparr>]) emptyDb)) = [Some 7] \<and>
   map_option r_efficiency (getRefillById 1 test_db) = Some (Some 5)"
proof -
  let ?ops = "test_history @
         [UpdateRefill ''2024-01-17T09:00:00.000Z'' 1
            \<lparr>ru_amountSpent = Some 70, ru_distanceTraveled = None, ru_liters = None,
             ru_date = None, ru_notes = None\<rparr>]"
  have "\<forall>row \<in> set (refills (run test_validDate ?ops emptyDb)).
      rr_efficiency row = Some (rr_amount_spent row / rr_distance_traveled row)"
    using refill_efficiency_invariant [of test_validDate ?ops, THEN conjunct1] by simp
  then have a: "map rr_efficiency (refills (run test_validDate ?ops emptyDb)) =
      map (\<lambda>row. Some (rr_amount_spent row / rr_distance_traveled row))
        (refills (run test_validDate ?ops emptyDb))"
    by (simp only: map_eq_conv)
  have b: "map rr_efficiency (refills (run test_validDate ?ops emptyDb)) = [Some 7]"
    by (simp only: test_refill_amount_update) simp
  have c: "map_option r_efficiency (getRefillById 1 test_db) = Some (Some 5)"
    by (simp add: getRefillById_def select_refill_def mapRowToRefill_def)
  from a b c show ?thesis by (intro conjI)
qed

section \<open>What an update leaves alone\<close>

lemma or_null_idem: "or_null (or_null x) = or_null x"
  by (simp add: or_null_def split: option.split)

lemma updateExpense_frame:
  assumes "getExpenseById i d = Some e" and "updateExpense vd now i u d = (Inr e', d')"
  shows "e_id e' = e_id e \<and> e_createdAt e' = e_createdAt e \<and> e_updatedAt e' = now \<and>
         e_type e' = (case eu_type u of None \<Rightarrow> e_type e | Some v \<Rightarrow> v) \<and>
         e_amount e' = (case eu_amount u of None \<Rightarrow> e_amount e | Some v \<Rightarrow> v) \<and>
         e_date e' = (case eu_date u of None \<Rightarrow> e_date e | Some v \<Rightarrow> v) \<and>
         e_description e' =
           (case eu_description u of None \<Rightarrow> e_description e | Some v \<Rightarrow> or_null (Some v)) \<and>
         getExpenseById i d' = Some e' \<and>
         (\<forall>j. j \<noteq> i \<longrightarrow> getExpenseById j d' = getExpenseById j d)"
proof -
  from assms(2) obtain row where sel: "select_expense i d = Some row"
    and e': "e' = mapRowToExpense (fold assign_expense (expense_assignments now u) row)"
    and d': "d' = update_expenses (expense_assignments now u) i d"
    and sel': "select_expense i d' = Some (fold assign_expense (expense_assignments now u) row)"
    using updateExpense_Inr [of vd now i u d e' d'] by blast
  from assms(1) sel have e: "e = mapRowToExpense row"
    by (simp add: getExpenseById_def)
  have other: "getExpenseById j d' = getExpenseById j d" if "j \<noteq> i" for j
  proof -
    have "find (\<lambda>y. er_id y = j)
        (map (\<lambda>y. if er_id y = i then fold assign_expense (expense_assignments now u) y else y)
           (expenses d)) = find (\<lambda>y. er_id y = j) (expenses d)"
      using that by (intro find_map_other fold_assign_expense_id)
    then show ?thesis
      by (simp add: d' getExpenseById_def select_expense_def update_expenses_def)
  qed
  show ?thesis
    using sel' other
    by (simp add: e e' fold_expense_assignments mapRowToExpense_def getExpenseById_def
        or_null_idem split: option.split)
qed

lemma updateTrip_frame:
  assumes "getTripById i d = Some t" and "updateTrip vd now i u d = (Inr t', d')"
  shows "t_id t' = t_id t \<and> t_createdAt t' = t_createdAt t \<and> t_updatedAt t' = now \<and>
         t_distance t' = (case tu_distance u of None \<Rightarrow> t_distance t | Some v \<Rightarrow> v) \<and>
         t_date t' = (case tu_date u of None \<Rightarrow> t_date t | Some v \<Rightarrow> v) \<and>
         t_purpose t' = (case tu_purpose u of None \<Rightarrow> t_purpose t | Some v \<Rightarrow> or_null (Some v)) \<and>
         t_notes t' = (case tu_notes u of None \<Rightarrow> t_notes t | Some v \<Rightarrow> or_null (Some v)) \<and>
         getTripById i d' = Some t' \<and>
         (\<forall>j. j \<noteq> i \<longrightarrow> getTripById j d' = getTripById j d)"
proof -
  from assms(2) obtain row where sel: "select_trip i d = Some row"
    and t': "t' = mapRowToTrip (fold assign_trip (trip_assignments now u) row)"
    and d': "d' = update_trips (trip_assignments now u) i d"
    and sel': "select_trip i d' = Some (fold assign_trip (trip_assignments now u) row)"
    using updateTrip_Inr [of vd now i u d t' d'] by blast
  from assms(1) sel have t: "t = mapRowToTrip row"
    by (simp add: getTripById_def)
  have other: "getTripById j d' = getTripById j d" if "j \<noteq> i" for j
  proof -
    have "find (\<lambda>y. tr_id y = j)
        (map (\<lambda>y. if tr_id y = i then fold assign_trip (trip_assignments now u) y else y)
           (trips d)) = find (\<lambda>y. tr_id y = j) (trips d)"
      using that by (intro find_map_other fold_assign_trip_id)
    then show ?thesis
      by (simp add: d' getTripById_def select_trip_def update_trips_def)
  qed
  show ?thesis
    using sel' other
    by (simp add: t t' fold_trip_assignments mapRowToTrip_def getTripById_def
        or_null_idem split: option.split)
qed

lemma updateRefill_frame:
  assumes "getRefillById i d = Some r" and "updateRefill vd now i u d = (Inr r', d')"
  shows "r_id r' = r_id r \<and> r_createdAt r' = r_createdAt r \<and> r_updatedAt r' = now \<and>
         r_liters r' = r_liters r \<and>
         r_date r' = (case ru_date u of None \<Rightarrow> r_date r | Some v \<Rightarrow> v) \<and>
         r_notes r' = (case ru_notes u of None \<Rightarrow> r_notes r | Some v \<Rightarrow> or_null (Some v)) \<and>
         (\<forall>j. j \<noteq> i \<longrightarrow> getRefillById j d' = getRefillById j d)"
proof -
  from assms(2) obtain row eff where sel: "select_refill i d = Some row"
    and r': "r' = mapRowToRefill (fold assign_refill (refill_assignments now u eff) row)"
    and d': "d' = update_refills (refill_assignments now u eff) i d"
    using updateRefill_Inr [of vd now i u d r' d'] by blast
  from assms(1) sel have r: "r = mapRowToRefill row"
    by (simp add: getRefillById_def)
  have other: "getRefillById j d' = getRefillById j d" if "j \<noteq> i" for j
  proof -
    have "find (\<lambda>y. rr_id y = j)
        (map (\<lambda>y. if rr_id y = i then fold assign_refill (refill_assignments now u eff) y else y)
           (refills d)) = find (\<lambda>y. rr_id y = j) (refills d)"
      using that by (intro find_map_other fold_assign_refill_id)
    then show ?thesis
      by (simp add: d' getRefillById_def select_refill_def update_refills_def)
  qed
  show ?thesis
    using other
    by (simp add: r r' fold_refill_assignments mapRowToRefill_def or_null_idem
        split: option.split)
qed

text \<open>The empty partial update of an existing entity succeeds.\<close>

lemma updateExpense_empty:
  assumes "getExpenseById i d = Some e"
  shows "fst (updateExpense vd now i
           \<lparr>eu_type = None, eu_amount = None, eu_date = None, eu_description = None\<rparr> d) =
         Inr (e\<lparr>e_updatedAt := now\<rparr>)"
proof -
  let ?u = "\<lparr>eu_type = None, eu_amount = None, eu_date = None, eu_description = None\<rparr>"
  from assms obtain row where sel: "select_expense i d = Some row" and e: "e = mapRowToExpense row"
    by (auto simp: getExpenseById_def split: option.splits)
  have "updateExpense vd now i ?u d =
      (Inr (mapRowToExpense (fold assign_expense (expense_assignments now ?u) row)),
       update_expenses (expense_assignments now ?u) i d)"
    using sel by (intro updateExpense_ok) simp_all
  then show ?thesis
    by (simp add: e fold_expense_assignments mapRowToExpense_def)
qed

lemma updateTrip_empty:
  assumes "getTripById i d = Some t"
  shows "fst (updateTrip vd now i
           \<lparr>tu_distance = None, tu_date = None, tu_purpose = None, tu_notes = None\<rparr> d) =
         Inr (t\<lparr>t_updatedAt := now\<rparr>)"
proof -
  let ?u = "\<lparr>tu_distance = None, tu_date = None, tu_purpose = None, tu_notes = None\<rparr>"
  from assms obtain row where sel: "select_trip i d = Some row" and t: "t = mapRowToTrip row"
    by (auto simp: getTripById_def split: option.splits)
  have "updateTrip vd now i ?u d =
      (Inr (mapRowToTrip (fold assign_trip (trip_assignments now ?u) row)),
       update_trips (trip_assignments now ?u) i d)"
    using sel by (intro updateTrip_ok) simp_all
  then show ?thesis
    by (simp add: t fold_trip_assignments mapRowToTrip_def)
qed

lemma updateRefill_empty:
  assumes "refills_ok d" and "getRefillById i d = Some r"
  shows "fst (updateRefill vd now i
           \<lparr>ru_amountSpent = None, ru_distanceTraveled = None, ru_liters = None,
            ru_date = None, ru_notes = None\<rparr> d) =
         Inr (r\<lparr>r_updatedAt := now\<rparr>)"
proof -
  let ?u = "\<lparr>ru_amountSpent = None, ru_distanceTraveled = None, ru_liters = None,
            ru_date = None, ru_notes = None\<rparr>"
  from assms(2) obtain row where sel: "select_refill i d = Some row" and r: "r = mapRowToRefill row"
    by (auto simp: getRefillById_def split: option.splits)
  have "row \<in> set (refills d)"
    using sel find_key [of rr_id i "refills d" row] by (simp add: select_refill_def)
  then have ok: "refill_row_ok row"
    using assms(1) by (simp add: refills_ok_def list_all_iff)
  have "updateRefill vd now i ?u d =
      (let eff = (case ru_amountSpent ?u of None \<Rightarrow> rr_amount_spent row | Some v \<Rightarrow> v) /
                (case ru_distanceTraveled ?u of None \<Rightarrow> rr_distance_traveled row | Some v \<Rightarrow> v)
       in (Inr (mapRowToRefill (fold assign_refill (refill_assignments now ?u eff) row)),
           update_refills (refill_assignments now ?u eff) i d))"
    using sel ok by (intro updateRefill_ok) (simp_all add: refill_row_ok_def)
  then show ?thesis
    using ok by (simp add: r fold_refill_assignments mapRowToRefill_def refill_row_ok_def Let_def)
qed

lemma stamps_ok_expense:
  assumes "stamps_ok t d" and "getExpenseById i d = Some e"
  shows "e_createdAt e \<le> e_updatedAt e \<and> e_updatedAt e \<le> t"
proof -
  from assms(2) obtain row where "find (\<lambda>y. er_id y = i) (expenses d) = Some row"
    and e: "e = mapRowToExpense row"
    by (auto simp: getExpenseById_def select_expense_def split: option.splits)
  then have "row \<in> set (expenses d)"
    using find_key [of er_id i "expenses d" row] by simp
  with assms(1) show ?thesis
    by (simp add: e stamps_ok_def list_all_iff mapRowToExpense_def)
qed

lemma stamps_ok_refill:
  assumes "stamps_ok t d" and "getRefillById i d = Some r"
  shows "r_createdAt r \<le> r_updatedAt r \<and> r_updatedAt r \<le> t"
proof -
  from assms(2) obtain row where "find (\<lambda>y. rr_id y = i) (refills d) = Some row"
    and r: "r = mapRowToRefill row"
    by (auto simp: getRefillById_def select_refill_def split: option.splits)
  then have "row \<in> set (refills d)"
    using find_key [of rr_id i "refills d" row] by simp
  with assms(1) show ?thesis
    by (simp add: r stamps_ok_def list_all_iff mapRowToRefill_def)
qed

lemma stamps_ok_trip:
  assumes "stamps_ok t d" and "getTripById i d = Some x"
  shows "t_createdAt x \<le> t_updatedAt x \<and> t_updatedAt x \<le> t"
proof -
  from assms(2) obtain row where "find (\<lambda>y. tr_id y = i) (trips d) = Some row"
    and x: "x = mapRowToTrip row"
    by (auto simp: getTripById_def select_trip_def split: option.splits)
  then have "row \<in> set (trips d)"
    using find_key [of tr_id i "trips d" row] by simp
  with assms(1) show ?thesis
    by (simp add: x stamps_ok_def list_all_iff mapRowToTrip_def)
qed

lemma updateExpense_on_history:
  assumes "stamps_ok t d" and "t \<le> now"
    and "getExpenseById i d = Some e" and "updateExpense vd now i u d = (Inr e', d')"
  shows "e_id e' = e_id e \<and> e_createdAt e' = e_createdAt e \<and> e_updatedAt e' = now \<and>
         e_updatedAt e \<le> e_updatedAt e' \<and> e_createdAt e \<le> e_updatedAt e' \<and>
         (eu_type u = None \<longrightarrow> e_type e' = e_type e) \<and>
         (eu_amount u = None \<longrightarrow> e_amount e' = e_amount e) \<and>
         (eu_date u = None \<longrightarrow> e_date e' = e_date e) \<and>
         (eu_description u = None \<longrightarrow> e_description e' = e_description e) \<and>
         getExpenseById i d' = Some e' \<and>
         (\<forall>j. j \<noteq> i \<longrightarrow> getExpenseById j d' = getExpenseById j d)"
proof -
  have "e_createdAt e \<le> e_updatedAt e" and "e_updatedAt e \<le> now"
    using stamps_ok_expense [OF assms(1,3)] assms(2) by auto
  then show ?thesis
    using updateExpense_frame [OF assms(3,4)] by auto
qed

lemma updateTrip_on_history:
  assumes "stamps_ok t d" and "t \<le> now"
    and "getTripById i d = Some x" and "updateTrip vd now i u d = (Inr x', d')"
  shows "t_id x' = t_id x \<and> t_createdAt x' = t_createdAt x \<and> t_updatedAt x' = now \<and>
         t_updatedAt x \<le> t_updatedAt x' \<and> t_createdAt x \<le> t_updatedAt x' \<and>
         (tu_distance u = None \<longrightarrow> t_distance x' = t_distance x) \<and>
         (tu_date u = None \<longrightarrow> t_date x' = t_date x) \<and>
         (tu_purpose u = None \<longrightarrow> t_purpose x' = t_purpose x) \<and>
         (tu_notes u = None \<longrightarrow> t_notes x' = t_notes x) \<and>
         getTripById i d' = Some x' \<and>
         (\<forall>j. j \<noteq> i \<longrightarrow> getTripById j d' = getTripById j d)"
proof -
  have "t_createdAt x \<le> t_updatedAt x" and "t_updatedAt x \<le> now"
    using stamps_ok_trip [OF assms(1,3)] assms(2) by auto
  then show ?thesis
    using updateTrip_frame [OF assms(3,4)] by auto
qed

lemma updateRefill_on_history:
  assumes "stamps_ok t d" and "t \<le> now" and "refills_ok d"
    and "getRefillById i d = Some r" and "updateRefill vd now i u d = (Inr r', d')"
  shows "r_id r' = r_id r \<and> r_createdAt r' = r_createdAt r \<and> r_updatedAt r' = now \<and>
         r_updatedAt r \<le> r_updatedAt r' \<and> r_createdAt r \<le> r_updatedAt r' \<and>
         (ru_amountSpent u = None \<longrightarrow> r_amountSpent r' = r_amountSpent r) \<and>
         (ru_distanceTraveled u = None \<longrightarrow> r_distanceTraveled r' = r_distanceTraveled r) \<and>
         (ru_date u = None \<longrightarrow> r_date r' = r_date r) \<and>
         (ru_notes u = None \<longrightarrow> r_notes r' = r_notes r) \<and>
         r_liters r' = r_liters r \<and>
         r_efficiency r' = Some (r_amountSpent r' / r_distanceTraveled r') \<and>
         (ru_amountSpent u = None \<and> ru_distanceTraveled u = None \<longrightarrow>
            r_efficiency r' = r_efficiency r) \<and>
         getRefillById i d' = Some r' \<and>
         (\<forall>j. j \<noteq> i \<longrightarrow> getRefillById j d' = getRefillById j d)"
proof -
  have stamps: "r_createdAt r \<le> r_updatedAt r" "r_updatedAt r \<le> now"
    using stamps_ok_refill [OF assms(1,4)] assms(2) by auto
  from assms(4) obtain row where "find (\<lambda>y. rr_id y = i) (refills d) = Some row"
    and r: "r = mapRowToRefill row"
    by (auto simp: getRefillById_def select_refill_def split: option.splits)
  then have "row \<in> set (refills d)"
    using find_key [of rr_id i "refills d" row] by simp
  then have "refill_row_ok row"
    using assms(3) by (simp add: refills_ok_def list_all_iff)
  then have old: "r_efficiency r = Some (r_amountSpent r / r_distanceTraveled r)"
    by (simp add: r refill_row_ok_def mapRowToRefill_def)
  show ?thesis
    using stamps old updateRefill_frame [OF assms(4,5)] updateRefill_recomputes [OF assms(4,5)]
    by auto
qed

text \<open>
  C7. Take a store left by a history of service calls along which the clock did not run
  backwards, and an update of an existing expense, refill or trip made at a reading
  \<open>now\<close> not before the last one. The entity the update returns (and leaves to be read
  back) has the same id and \<open>createdAt\<close>; every field absent from the partial input has
  its stored value; a refill's efficiency is the quotient of its two inputs as they are
  after the update, hence unchanged when neither is supplied; \<open>updatedAt\<close> is \<open>now\<close>,
  which is at least the former \<open>updatedAt\<close> and \<open>createdAt\<close>. The entities under other
  ids are untouched. The empty partial input succeeds on every existing entity and
  changes \<open>updatedAt\<close> only.
\<close>

theorem update_frame:
  assumes "d = run validDate ops emptyDb" and "clock_monotone [] ops"
    and "last_time [] ops \<le> now"
  shows
    "(\<forall>i u e e' d'.
        getExpenseById i d = Some e \<and> updateExpense validDate now i u d = (Inr e', d') \<longrightarrow>
        e_id e' = e_id e \<and> e_createdAt e' = e_createdAt e \<and> e_updatedAt e' = now \<and>
        e_updatedAt e \<le> e_updatedAt e' \<and> e_createdAt e \<le> e_updatedAt e' \<and>
        (eu_type u = None \<longrightarrow> e_type e' = e_type e) \<and>
        (eu_amount u = None \<longrightarrow> e_amount e' = e_amount e) \<and>
        (eu_date u = None \<longrightarrow> e_date e' = e_date e) \<and>
        (eu_description u = None \<longrightarrow> e_description e' = e_description e) \<and>
        getExpenseById i d' = Some e' \<and>
        (\<forall>j. j \<noteq> i \<longrightarrow> getExpenseById j d' = getExpenseById j d)) \<and>
     (\<forall>i e. getExpenseById i d = Some e \<longrightarrow>
        fst (updateExpense validDate now i
               \<lparr>eu_type = None, eu_amount = None, eu_date = None, eu_description = None\<rparr> d) =
          Inr (e\<lparr>e_updatedAt := now\<rparr>)) \<and>
     (\<forall>i u r r' d'.
        getRefillById i d = Some r \<and> updateRefill validDate now i u d = (Inr r', d') \<longrightarrow>
        r_id r' = r_id r \<and> r_createdAt r' = r_createdAt r \<and> r_updatedAt r' = now \<and>
        r_updatedAt r \<le> r_updatedAt r' \<and> r_createdAt r \<le> r_updatedAt r' \<and>
        (ru_amountSpent u = None \<longrightarrow> r_amountSpent r' = r_amountSpent r) \<and>
        (ru_distanceTraveled u = None \<longrightarrow> r_distanceTraveled r' = r_distanceTraveled r) \<and>
        (ru_date u = None \<longrightarrow> r_date r' = r_date r) \<and>
        (ru_notes u = None \<longrightarrow> r_notes r' = r_notes r) \<and>
        r_liters r' = r_liters r \<and>
        r_efficiency r' = Some (r_amountSpent r' / r_distanceTraveled r') \<and>
        (ru_amountSpent u = None \<and> ru_distanceTraveled u = None \<longrightarrow>
           r_efficiency r' = r_efficiency r) \<and>
        getRefillById i d' = Some r' \<and>
        (\<forall>j. j \<noteq> i \<longrightarrow> getRefillById j d' = getRefillById j d)) \<and>
     (\<forall>i r. getRefillById i d = Some r \<longrightarrow>
        fst (updateRefill validDate now i
               \<lparr>ru_amountSpent = None, ru_distanceTraveled = None, ru_liters = None,
                ru_date = None, ru_notes = None\<rparr> d) =
          Inr (r\<lparr>r_updatedAt := now\<rparr>)) \<and>
     (\<forall>i u x x' d'.
        getTripById i d = Some x \<and> updateTrip validDate now i u d = (Inr x', d') \<longrightarrow>
        t_id x' = t_id x \<and> t_createdAt x' = t_createdAt x \<and> t_updatedAt x' = now \<and>
        t_updatedAt x \<le> t_updatedAt x' \<and> t_createdAt x \<le> t_updatedAt x' \<and>
        (tu_distance u = None \<longrightarrow> t_distance x' = t_distance x) \<and>
        (tu_date u = None \<longrightarrow> t_date x' = t_date x) \<and>
        (tu_purpose u = None \<longrightarrow> t_purpose x' = t_purpose x) \<and>
        (tu_notes u = None \<longrightarrow> t_notes x' = t_notes x) \<and>
        getTripById i d' = Some x' \<and>
        (\<forall>j. j \<noteq> i \<longrightarrow> getTripById j d' = getTripById j d)) \<and>
     (\<forall>i x. getTripById i d = Some x \<longrightarrow>
        fst (updateTrip validDate now i
               \<lparr>tu_distance = None, tu_date = None, tu_purpose = None, tu_notes = None\<rparr> d) =
          Inr (x\<lparr>t_updatedAt := now\<rparr>))"
proof -
  have stamps: "stamps_ok (last_time [] ops) d"
    unfolding assms(1) using stamps_ok_empty assms(2) by (rule run_stamps_ok)
  have inv: "refills_ok d"
    unfolding assms(1) using keys_ok_empty refills_ok_empty by (rule run_refills_ok)
  note le = assms(3)
  show ?thesis
  proof (intro conjI allI impI)
    fix i u e e' d'
    assume h: "getExpenseById i d = Some e \<and> updateExpense validDate now i u d = (Inr e', d')"
    note f = updateExpense_on_history [OF stamps le conjunct1 [OF h] conjunct2 [OF h]]
    from f show "e_id e' = e_id e" by blast
    from f show "e_createdAt e' = e_createdAt e" by blast
    from f show "e_updatedAt e' = now" by blast
    from f show "e_updatedAt e \<le> e_updatedAt e'" by blast
    from f show "e_createdAt e \<le> e_updatedAt e'" by blast
    from f show "getExpenseById i d' = Some e'" by blast
    { assume "eu_type u = None" with f show "e_type e' = e_type e" by blast }
    { assume "eu_amount u = None" with f show "e_amount e' = e_amount e" by blast }
    { assume "eu_date u = None" with f show "e_date e' = e_date e" by blast }
    { assume "eu_description u = None" with f show "e_description e' = e_description e" by blast }
    { fix j assume "j \<noteq> i" with f show "getExpenseById j d' = getExpenseById j d" by blast }
  next
    fix i e
    assume "getExpenseById i d = Some e"
    then show "fst (updateExpense validDate now i
               \<lparr>eu_type = None, eu_amount = None, eu_date = None, eu_description = None\<rparr> d) =
          Inr (e\<lparr>e_updatedAt := now\<rparr>)"
      by (rule updateExpense_empty)
  next
    fix i u r r' d'
    assume h: "getRefillById i d = Some r \<and> updateRefill validDate now i u d = (Inr r', d')"
    note f = updateRefill_on_history [OF stamps le inv conjunct1 [OF h] conjunct2 [OF h]]
    from f show "r_id r' = r_id r" by blast
    from f show "r_createdAt r' = r_createdAt r" by blast
    from f show "r_updatedAt r' = now" by blast
    from f show "r_updatedAt r \<le> r_updatedAt r'" by blast
    from f show "r_createdAt r \<le> r_updatedAt r'" by blast
    from f show "r_liters r' = r_liters r" by blast
    from f show "r_efficiency r' = Some (r_amountSpent r' / r_distanceTraveled r')" by blast
    from f show "getRefillById i d' = Some r'" by blast
    { assume "ru_amountSpent u = None" with f show "r_amountSpent r' = r_amountSpent r" by blast }
    { assume "ru_distanceTraveled u = None"
      with f show "r_distanceTraveled r' = r_distanceTraveled r" by blast }
    { assume "ru_date u = None" with f show "r_date r' = r_date r" by blast }
    { assume "ru_notes u = None" with f show "r_notes r' = r_notes r" by blast }
    { assume "ru_amountSpent u = None \<and> ru_distanceTraveled u = None"
      with f show "r_efficiency r' = r_efficiency r" by blast }
    { fix j assume "j \<noteq> i" with f show "getRefillById j d' = getRefillById j d" by blast }
  next
    fix i r
    assume "getRefillById i d = Some r"
    with inv show "fst (updateRefill validDate now i
               \<lparr>ru_amountSpent = None, ru_distanceTraveled = None, ru_liters = None,
                ru_date = None, ru_notes = None\<rparr> d) =
          Inr (r\<lparr>r_updatedAt := now\<rparr>)"
      by (rule updateRefill_empty)
  next
    fix i u x x' d'
    assume h: "getTripById i d = Some x \<and> updateTrip validDate now i u d = (Inr x', d')"
    note f = updateTrip_on_history [OF stamps le conjunct1 [OF h] conjunct2 [OF h]]
    from f show "t_id x' = t_id x" by blast
    from f show "t_createdAt x' = t_createdAt x" by blast
    from f show "t_updatedAt x' = now" by blast
    from f show "t_updatedAt x \<le> t_updatedAt x'" by blast
    from f show "t_createdAt x \<le> t_updatedAt x'" by blast
    from f show "getTripById i d' = Some x'" by blast
    { assume "tu_distance u = None" with f show "t_distance x' = t_distance x" by blast }
    { assume "tu_date u = None" with f show "t_date x' = t_date x" by blast }
    { assume "tu_purpose u = None" with f show "t_purpose x' = t_purpose x" by blast }
    { assume "tu_notes u = None" with f show "t_notes x' = t_notes x" by blast }
    { fix j assume "j \<noteq> i" with f show "getTripById j d' = getTripById j d" by blast }
  next
    fix i x
    assume "getTripById i d = Some x"
    then show "fst (updateTrip validDate now i
               \<lparr>tu_distance = None, tu_date = None, tu_purpose = None, tu_notes = None\<rparr> d) =
          Inr (x\<lparr>t_updatedAt := now\<rparr>)"
      by (rule updateTrip_empty)
  qed
qed

lemma test_history_clock:
  "clock_monotone [] test_history \<and> last_time [] test_history = ''2024-01-16T08:00:02.000Z''"
  by simp

theorem update_frame_witness:
  "fst (updateExpense test_validDate ''2024-01-17T09:00:00.000Z'' 1
          \<lparr>eu_type = None, eu_amount = None, eu_date = None, eu_description = None\<rparr> test_db) =
     Inr \<lparr>e_id = 1, e_type = ''Fuel'', e_amount = 50, e_date = ''2024-01-15T10:00:00.000Z'',
           e_description = Some ''Original'', e_createdAt = ''2024-01-16T08:00:00.000Z'',
           e_updatedAt = ''2024-01-17T09:00:00.000Z''\<rparr> \<and>
   fst (updateRefill test_validDate ''2024-01-17T09:00:00.000Z'' 1
          \<lparr>ru_amountSpent = None, ru_distanceTraveled = None, ru_liters = None,
           ru_date = None, ru_notes = None\<rparr> test_db) =
     Inr \<lparr>r_id = 1, r_amountSpent = 50, r_distanceTraveled = 10, r_liters = None,
           r_date = ''2024-01-10T10:00:00.000Z'', r_notes = Some ''First refill'',
           r_efficiency = Some 5, r_createdAt = ''2024-01-16T08:00:01.000Z'',
           r_updatedAt = ''2024-01-17T09:00:00.000Z''\<rparr> \<and>
   fst (updateTrip test_validDate ''2024-01-17T09:00:00.000Z'' 1
          \<lparr>tu_distance = None, tu_date = None, tu_purpose = None, tu_notes = None\<rparr> test_db) =
     Inr \<lparr>t_id = 1, t_distance = 45.5, t_date = ''2024-01-15T10:00:00.000Z'',
           t_purpose = Some ''Business'', t_notes = Some ''Client meeting'',
           t_createdAt = ''2024-01-16T08:00:02.000Z'',
           t_updatedAt = ''2024-01-17T09:00:00.000Z''\<rparr> \<and>
   t_createdAt
     (projr (fst (updateTrip test_validDate ''2024-01-17T09:00:00.000Z'' 1
        \<lparr>tu_distance = None, tu_date = None, tu_purpose = Some '''', tu_notes = Some ''''\<rparr>
        test_db))) = ''2024-01-16T08:00:02.000Z'' \<and>
   t_distance
     (projr (fst (updateTrip test_validDate ''2024-01-17T09:00:00.000Z'' 1
        \<lparr>tu_distance = None, tu_date = None, tu_purpose = Some '''', tu_notes = Some ''''\<rparr>
        test_db))) = 45.5"
proof -
  let ?now = "''2024-01-17T09:00:00.000Z''"
  let ?tu = "\<lparr>tu_distance = None, tu_date = None, tu_purpose = Some '''', tu_notes = Some ''''\<rparr>"
  have store: "test_db = run test_validDate test_history emptyDb"
    by (simp only: test_history_store)
  have mono: "clock_monotone [] test_history"
    using test_history_clock by (rule conjunct1)
  have le: "last_time [] test_history \<le> ?now"
    by (simp only: conjunct2 [OF test_history_clock]) simp
  note spec = update_frame [OF store mono le]
  have ge: "getExpenseById 1 test_db =
      Some \<lparr>e_id = 1, e_type = ''Fuel'', e_amount = 50, e_date = ''2024-01-15T10:00:00.000Z'',
           e_description = Some ''Original'', e_createdAt = ''2024-01-16T08:00:00.000Z'',
           e_updatedAt = ''2024-01-16T08:00:00.000Z''\<rparr>"
    by (simp add: getExpenseById_def select_expense_def mapRowToExpense_def or_null_def)
  have gr: "getRefillById 1 test_db =
      Some \<lparr>r_id = 1, r_amountSpent = 50, r_distanceTraveled = 10, r_liters = None,
           r_date = ''2024-01-10T10:00:00.000Z'', r_notes = Some ''First refill'',
           r_efficiency = Some 5, r_createdAt = ''2024-01-16T08:00:01.000Z'',
           r_updatedAt = ''2024-01-16T08:00:01.000Z''\<rparr>"
    by (simp add: getRefillById_def select_refill_def mapRowToRefill_def or_null_def)
  have gt: "getTripById 1 test_db =
      Some \<lparr>t_id = 1, t_distance = 45.5, t_date = ''2024-01-15T10:00:00.000Z'',
           t_purpose = Some ''Business'', t_notes = Some ''Client meeting'',
           t_createdAt = ''2024-01-16T08:00:02.000Z'',
           t_updatedAt = ''2024-01-16T08:00:02.000Z''\<rparr>"
    by (simp add: getTripById_def select_trip_def mapRowToTrip_def or_null_def)
  have a: "fst (updateExpense test_validDate ?now 1
          \<lparr>eu_type = None, eu_amount = None, eu_date = None, eu_description = None\<rparr> test_db) =
     Inr \<lparr>e_id = 1, e_type = ''Fuel'', e_amount = 50, e_date = ''2024-01-15T10:00:00.000Z'',
           e_description = Some ''Original'', e_createdAt = ''2024-01-16T08:00:00.000Z'',
           e_updatedAt = ?now\<rparr>"
    using spec [THEN conjunct2, THEN conjunct1, rule_format, OF ge] by simp
  have b: "fst (updateRefill test_validDate ?now 1
          \<lparr>ru_amountSpent = None, ru_distanceTraveled = None, ru_liters = None,
           ru_date = None, ru_notes = None\<rparr> test_db) =
     Inr \<lparr>r_id = 1, r_amountSpent = 50, r_distanceTraveled = 10, r_liters = None,
           r_date = ''2024-01-10T10:00:00.000Z'', r_notes = Some ''First refill'',
           r_efficiency = Some 5, r_createdAt = ''2024-01-16T08:00:01.000Z'',
           r_updatedAt = ?now\<rparr>"
    using spec [THEN conjunct2, THEN conjunct2, THEN conjunct2, THEN conjunct1, rule_format,
        OF gr] by simp
  have c: "fst (updateTrip test_validDate ?now 1
          \<lparr>tu_distance = None, tu_date = None, tu_purpose = None, tu_notes = None\<rparr> test_db) =
     Inr \<lparr>t_id = 1, t_distance = 45.5, t_date = ''2024-01-15T10:00:00.000Z'',
           t_purpose = Some ''Business'', t_notes = Some ''Client meeting'',
           t_createdAt = ''2024-01-16T08:00:02.000Z'', t_updatedAt = ?now\<rparr>"
    using spec [THEN conjunct2, THEN conjunct2, THEN conjunct2, THEN conjunct2, THEN conjunct2,
        rule_format, OF gt] by simp
  let ?x' = "projr (fst (updateTrip test_validDate ?now 1 ?tu test_db))"
  let ?d' = "snd (updateTrip test_validDate ?now 1 ?tu test_db)"
  have upd: "updateTrip test_validDate ?now 1 ?tu test_db = (Inr ?x', ?d')"
    by (simp only: test_update_trip) simp
  have none: "tu_distance ?tu = None"
    by simp
  note frame = spec [THEN conjunct2, THEN conjunct2, THEN conjunct2, THEN conjunct2,
      THEN conjunct1, rule_format, OF conjI [OF gt upd]]
  have d: "t_createdAt ?x' = ''2024-01-16T08:00:02.000Z''"
    using frame [THEN conjunct2, THEN conjunct1] by simp
  have e: "t_distance ?x' = 45.5"
    using frame [THEN conjunct2, THEN conjunct2, THEN conjunct2, THEN conjunct2, THEN conjunct2,
        THEN conjunct1, rule_format, OF none] by simp
  from a b c d e show ?thesis by (intro conjI)
qed

end
